theory Spec2Isabelle
  imports Main "HOL-Library.Sublist"
begin

section \<open>Python values shared by the scraper's functions\<close>

text \<open>
  Exceptions are values. The constructors are the exception classes that the modelled
  functions of \<^verbatim>\<open>pdf.py\<close> and \<^verbatim>\<open>fallbacks.py\<close> can raise or receive from the libraries
  they call (\<^verbatim>\<open>requests\<close>, \<^verbatim>\<open>boto3\<close>, \<^verbatim>\<open>zipfile\<close>, \<^verbatim>\<open>datetime\<close>, \<^verbatim>\<open>pathlib\<close>).
\<close>

datatype error =
    TypeError
  | KeyError
  | ValueError
  | IndexError
  | AttributeError
  | OverflowError
  | FileNotFoundError
  | RequestException
  | HTTPError
  | JSONDecodeError
  | XMLSyntaxError
  | BadZipFile
  | ClientError

section \<open>\<^verbatim>\<open>month_folder\<close>: the archive bucket of a deposit date\<close>

text \<open>
  \<^verbatim>\<open>datetime.date\<close>: a year in \<open>1..9999\<close> (\<^verbatim>\<open>MINYEAR\<close>, \<^verbatim>\<open>MAXYEAR\<close>), a month in \<open>1..12\<close>
  and a day of that month.
\<close>

record date =
  year :: nat
  month :: nat
  day :: nat

text \<open>\<^verbatim>\<open>calendar.isleap\<close> and the day count \<^verbatim>\<open>calendar.monthrange(year, month)[1]\<close>.\<close>

definition isleap :: "nat \<Rightarrow> bool" where
  "isleap y = (y mod 4 = 0 \<and> (y mod 100 \<noteq> 0 \<or> y mod 400 = 0))"

definition mdays :: "nat list" where
  "mdays = [0, 31, 28, 31, 30, 31, 30, 31, 31, 30, 31, 30, 31]"

definition monthrange_days :: "nat \<Rightarrow> nat \<Rightarrow> nat" where
  "monthrange_days y m = mdays ! m + (if m = 2 \<and> isleap y then 1 else 0)"

definition valid_date :: "date \<Rightarrow> bool" where
  "valid_date d =
     (1 \<le> year d \<and> year d \<le> 9999 \<and> 1 \<le> month d \<and> month d \<le> 12 \<and>
      1 \<le> day d \<and> day d \<le> monthrange_days (year d) (month d))"

text \<open>
  \<^verbatim>\<open>date + datetime.timedelta(days=1)\<close>: the next calendar day; Python raises
  \<^verbatim>\<open>OverflowError\<close> when the result would leave the year range.
\<close>

definition add_one_day :: "date \<Rightarrow> error + date" where
  "add_one_day d =
     (if day d < monthrange_days (year d) (month d) then Inr (d\<lparr>day := day d + 1\<rparr>)
      else if month d < 12 then Inr (d\<lparr>month := month d + 1, day := 1\<rparr>)
      else if year d < 9999 then Inr (d\<lparr>year := year d + 1, month := 1, day := 1\<rparr>)
      else Inl OverflowError)"

text \<open>\<^verbatim>\<open>strftime("%B_%Y")\<close>: the English month name, an underscore, the decimal year.\<close>

definition month_names :: "string list" where
  "month_names =
     [''January'', ''February'', ''March'', ''April'', ''May'', ''June'', ''July'',
      ''August'', ''September'', ''October'', ''November'', ''December'']"

definition digit_char :: "nat \<Rightarrow> char" where
  "digit_char n = char_of (48 + n)"

fun decimal :: "nat \<Rightarrow> string" where
  "decimal n = (if n < 10 then [digit_char n] else decimal (n div 10) @ [digit_char (n mod 10)])"

declare decimal.simps [simp del]

definition strftime_B_Y :: "date \<Rightarrow> string" where
  "strftime_B_Y d = month_names ! (month d - 1) @ ''_'' @ decimal (year d)"

text \<open>
  \<^verbatim>\<open>month_folder(doi)\<close>, lines 334-344 of \<^verbatim>\<open>fallbacks.py\<close>. The bioRxiv details API is
  the parameter \<open>lookup\<close>: for the request URL it gives the parsed deposit date, or the
  exception raised by \<^verbatim>\<open>requests.get\<close>, \<^verbatim>\<open>raise_for_status\<close>, the JSON access
  \<^verbatim>\<open>["collection"][0]["date"]\<close> or \<^verbatim>\<open>date.fromisoformat\<close>. The function has no handler, so
  every such exception reaches its caller.
\<close>

definition biorxiv_details_url :: "string \<Rightarrow> string" where
  "biorxiv_details_url doi = ''https://api.biorxiv.org/details/biorxiv/'' @ doi @ ''/na/json''"

definition roll_date :: "date \<Rightarrow> error + date" where
  "roll_date d =
     (let last_day = monthrange_days (year d) (month d)
      in if day d = last_day then add_one_day d else Inr d)"

definition month_folder :: "(string \<Rightarrow> error + date) \<Rightarrow> string \<Rightarrow> error + string" where
  "month_folder lookup doi =
     (case lookup (biorxiv_details_url doi) of
        Inl e \<Rightarrow> Inl e
      | Inr d \<Rightarrow> (case roll_date d of Inl e \<Rightarrow> Inl e | Inr d' \<Rightarrow> Inr (strftime_B_Y d')))"

text \<open>
  The bucket as the specification words it: the month after the deposit month when the
  deposit day is the last day of its month (January of the next year after December),
  the deposit month otherwise.
\<close>

definition spec_bucket :: "date \<Rightarrow> string" where
  "spec_bucket d =
     (if day d = monthrange_days (year d) (month d)
      then (if month d = 12 then ''January_'' @ decimal (year d + 1)
            else month_names ! month d @ ''_'' @ decimal (year d))
      else month_names ! (month d - 1) @ ''_'' @ decimal (year d))"

section \<open>Strings and paths\<close>

text \<open>
  Python strings and byte strings are lists of characters. \<^verbatim>\<open>sub in s\<close> is
  \<^const>\<open>sublist\<close>, \<^verbatim>\<open>s.startswith(p)\<close> is \<^const>\<open>prefix\<close> and \<^verbatim>\<open>s.endswith(p)\<close> is
  \<^const>\<open>suffix\<close>. \<^verbatim>\<open>s.split(sep)\<close> for a non-empty separator:
\<close>

function str_split :: "string \<Rightarrow> string \<Rightarrow> string list" where
  "str_split sep [] = [[]]"
| "str_split sep (c # cs) =
     (if sep \<noteq> [] \<and> prefix sep (c # cs)
      then [] # str_split sep (drop (length sep) (c # cs))
      else (let r = str_split sep cs in (c # hd r) # tl r))"
  by pat_completeness auto
termination
  by (relation "measure (\<lambda>(sep, s). length s)") auto

text \<open>\<^verbatim>\<open>lower()\<close> on ASCII text, and \<^verbatim>\<open>replace("/", "_")\<close>.\<close>

definition lower_char :: "char \<Rightarrow> char" where
  "lower_char c =
     (let n = (of_char c :: nat) in if 65 \<le> n \<and> n \<le> 90 then char_of (n + 32) else c)"

definition lower :: "string \<Rightarrow> string" where
  "lower s = map lower_char s"

definition replace_slash :: "string \<Rightarrow> string" where
  "replace_slash s = map (\<lambda>c. if c = CHR ''/'' then CHR ''_'' else c) s"

text \<open>
  A \<^verbatim>\<open>pathlib.Path\<close> is kept as the string of its parent directory, as \<^verbatim>\<open>str\<close> prints a
  normalised path (\<^verbatim>\<open>.\<close> for the current directory, \<^verbatim>\<open>/\<close> for the root), and its final
  component (empty for \<^verbatim>\<open>.\<close> and for the root themselves). \<open>joinpath\<close> is the string of
  \<^verbatim>\<open>parent / name\<close> for a single component: \<^verbatim>\<open>pathlib\<close> drops a parent \<^verbatim>\<open>.\<close> and does not
  double the slash of the root. \<^verbatim>\<open>as_posix\<close> prints a path that way. \<^verbatim>\<open>Path.suffix\<close> is the
  part of the name from its last dot, unless that dot is the first or the last character;
  \<^verbatim>\<open>with_suffix\<close> replaces it (or appends when there is none) and raises \<^verbatim>\<open>ValueError\<close> on
  an empty name.
\<close>

type_synonym path = "string \<times> string"

definition joinpath :: "string \<Rightarrow> string \<Rightarrow> string" where
  "joinpath parent name =
     (if parent = [] \<or> parent = ''.'' then name
      else if last parent = CHR ''/'' then parent @ name
      else parent @ ''/'' @ name)"

definition as_posix :: "path \<Rightarrow> string" where
  "as_posix p = (if snd p = [] then fst p else joinpath (fst p) (snd p))"

definition path_suffix :: "string \<Rightarrow> string" where
  "path_suffix name =
     (if CHR ''.'' \<notin> set name then []
      else let j = length (takeWhile (\<lambda>c. c \<noteq> CHR ''.'') (rev name));
               i = length name - 1 - j
           in if 0 < i \<and> 0 < j then drop i name else [])"

definition with_suffix :: "path \<Rightarrow> string \<Rightarrow> error + path" where
  "with_suffix p suf =
     (if snd p = [] then Inl ValueError
      else Inr (fst p, take (length (snd p) - length (path_suffix (snd p))) (snd p) @ suf))"

section \<open>The world the strategies act on\<close>

text \<open>
  An HTTP response as the strategies read it: the status code, the body, and what the
  parsers the code applies to the body find in it:
  \<^item> \<open>citation_pdf_url\<close>: the \<^verbatim>\<open>content\<close> attribute of the first \<^verbatim>\<open>meta\<close> tag named
    \<^verbatim>\<open>citation_pdf_url\<close> (\<^verbatim>\<open>soup.find("meta", ...)\<close>, then \<^verbatim>\<open>.get("content")\<close>);
  \<^item> \<open>iframe\<close>, \<open>embed\<close>: \<^verbatim>\<open>soup.iframe\<close> and \<^verbatim>\<open>soup.embed\<close>, \<open>None\<close> when the tag is
    missing, otherwise the tag's \<^verbatim>\<open>src\<close> attribute if it has one;
  \<^item> \<open>json_records\<close>: \<^verbatim>\<open>response.json().get("records", [])\<close>, each record reduced to
    its \<^verbatim>\<open>pmcid\<close> entry if it has one, or the exception of the JSON decoder;
  \<^item> \<open>xml_ok\<close>: whether \<^verbatim>\<open>etree.fromstring\<close> accepts the body.
\<close>

record response =
  status_code :: nat
  content :: string
  citation_pdf_url :: "string option"
  iframe :: "string option option"
  embed :: "string option option"
  json_records :: "error + string option list"
  xml_ok :: bool

text \<open>
  The world: the network answers the \<open>n\<close>-th request of the run, sent to a URL, with a
  response or with the exception \<^verbatim>\<open>requests.get\<close> raises; \<open>requested\<close> is the log of the
  URLs requested so far; \<open>files\<close> are the files that exist, by path, with their bytes;
  \<open>dirs\<close> gives, for each existing directory, by the string of its path, its entries in
  the order of \<^verbatim>\<open>iterdir\<close>, each with its \<^verbatim>\<open>is_dir\<close> flag. The listings are read by the
  duplicate scan of a task, which precedes every write of that task; writes do not
  update them.
\<close>

record world =
  net :: "nat \<Rightarrow> string \<Rightarrow> error + response"
  requested :: "string list"
  files :: "path \<rightharpoonup> string"
  dirs :: "string \<rightharpoonup> (string \<times> bool) list"

text \<open>\<^verbatim>\<open>Path.exists()\<close> holds for a file and for a directory alike.\<close>

definition path_exists :: "world \<Rightarrow> path \<Rightarrow> bool" where
  "path_exists w p = (files w p \<noteq> None \<or> dirs w (as_posix p) \<noteq> None)"

definition requests_get :: "string \<Rightarrow> world \<Rightarrow> (error + response) \<times> world" where
  "requests_get u w = (net w (length (requested w)) u, w\<lparr>requested := requested w @ [u]\<rparr>)"

text \<open>\<^verbatim>\<open>raise_for_status\<close> raises \<^verbatim>\<open>HTTPError\<close> for a status in \<open>400..599\<close>.\<close>

definition raise_for_status :: "response \<Rightarrow> error + response" where
  "raise_for_status r =
     (if 400 \<le> status_code r \<and> status_code r < 600 then Inl HTTPError else Inr r)"

text \<open>The pair of lines \<^verbatim>\<open>r = requests.get(url, ...); r.raise_for_status()\<close>.\<close>

definition get_ok :: "string \<Rightarrow> world \<Rightarrow> (error + response) \<times> world" where
  "get_ok u w =
     (case requests_get u w of
        (Inl e, w') \<Rightarrow> (Inl e, w')
      | (Inr r, w') \<Rightarrow> (raise_for_status r, w'))"

text \<open>
  \<^verbatim>\<open>with open(output_path.with_suffix(suf), "wb+") as f: f.write(data)\<close>: the file is
  created or replaced; \<^verbatim>\<open>open\<close> raises when the parent directory does not exist.
\<close>

definition write_file :: "path \<Rightarrow> string \<Rightarrow> world \<Rightarrow> error + world" where
  "write_file p data w =
     (if dirs w (fst p) = None then Inl FileNotFoundError
      else Inr (w\<lparr>files := (files w)(p \<mapsto> data)\<rparr>))"

definition write_suffixed :: "path \<Rightarrow> string \<Rightarrow> string \<Rightarrow> world \<Rightarrow> error + world" where
  "write_suffixed output_path suf data w =
     (case with_suffix output_path suf of
        Inl e \<Rightarrow> Inl e
      | Inr p \<Rightarrow> write_file p data w)"

text \<open>The signature test \<^verbatim>\<open>response.content[:4] == b"%PDF"\<close>.\<close>

definition is_pdf :: "string \<Rightarrow> bool" where
  "is_pdf body = (take 4 body = ''%PDF'')"

section \<open>The acquisition strategies of \<^verbatim>\<open>fallbacks.py\<close>\<close>

text \<open>
  A strategy of the chain returns the pair \<^verbatim>\<open>(success, url)\<close>; the model returns it with
  the world after the attempt, or the exception that leaves the function.
\<close>

type_synonym outcome = "error + bool \<times> string option"

text \<open>\<^verbatim>\<open>fallback_doi\<close>, lines 550-577.\<close>

definition fallback_doi :: "string \<Rightarrow> path \<Rightarrow> world \<Rightarrow> outcome \<times> world" where
  "fallback_doi doi output_path w =
     (let url = ''https://doi.org/'' @ doi in
      case get_ok url w of
        (Inl e, w1) \<Rightarrow> (Inr (False, None), w1)
      | (Inr response, w1) \<Rightarrow>
          (case citation_pdf_url response of
             None \<Rightarrow> (Inr (False, None), w1)
           | Some pdf_url \<Rightarrow>
               if pdf_url = [] then (Inr (False, None), w1)
               else
                 (case get_ok pdf_url w1 of
                    (Inl e, w2) \<Rightarrow> (Inr (False, None), w2)
                  | (Inr response2, w2) \<Rightarrow>
                      if \<not> is_pdf (content response2) then (Inr (False, None), w2)
                      else
                        (case write_suffixed output_path ''.pdf'' (content response2) w2 of
                           Inl e \<Rightarrow> (Inr (False, None), w2)
                         | Inr w3 \<Rightarrow> (Inr (True, Some pdf_url), w3)))))"

text \<open>
  \<^verbatim>\<open>fallback_sci_hub\<close>, lines 480-515. The whole body is inside one \<^verbatim>\<open>try\<close>; a missing
  \<^verbatim>\<open>embed\<close> tag (\<^verbatim>\<open>AttributeError\<close>) or \<^verbatim>\<open>src\<close> attribute (\<^verbatim>\<open>KeyError\<close>) ends in its handler.
\<close>

definition sci_hub_src :: "response \<Rightarrow> error + string" where
  "sci_hub_src r =
     (case iframe r of
        None \<Rightarrow>
          (case embed r of
             None \<Rightarrow> Inl AttributeError
           | Some None \<Rightarrow> Inl KeyError
           | Some (Some src) \<Rightarrow> Inr (if prefix ''http'' src then src else ''https:'' @ src))
      | Some None \<Rightarrow> Inl KeyError
      | Some (Some src) \<Rightarrow> Inr (if prefix ''http'' src then src else ''https:'' @ src))"

definition fallback_sci_hub :: "string \<Rightarrow> path \<Rightarrow> world \<Rightarrow> outcome \<times> world" where
  "fallback_sci_hub doi output_path w =
     (let url = ''https://www.sci-hub.ren/'' @ doi @ ''#'' in
      case get_ok url w of
        (Inl e, w1) \<Rightarrow> (Inr (False, None), w1)
      | (Inr r, w1) \<Rightarrow>
          (case sci_hub_src r of
             Inl e \<Rightarrow> (Inr (False, None), w1)
           | Inr download_url \<Rightarrow>
               (case get_ok download_url w1 of
                  (Inl e, w2) \<Rightarrow> (Inr (False, None), w2)
                | (Inr download_r, w2) \<Rightarrow>
                    if \<not> is_pdf (content download_r) then (Inr (False, None), w2)
                    else
                      (case write_suffixed output_path ''.pdf'' (content download_r) w2 of
                         Inl e \<Rightarrow> (Inr (False, None), w2)
                       | Inr w3 \<Rightarrow> (Inr (True, Some download_url), w3)))))"

text \<open>
  \<^verbatim>\<open>fallback_arxiv\<close>, lines 517-548. \<open>arxiv_try\<close> is one \<^verbatim>\<open>try\<close> block of it: a request
  whose failure, or whose body without the signature, is passed over. \<open>arxiv_loop\<close> is the
  loop over the three categories. The index \<^verbatim>\<open>[1]\<close> of the split is outside every
  \<^verbatim>\<open>try\<close>.
\<close>

definition arxiv_try :: "string \<Rightarrow> path \<Rightarrow> world \<Rightarrow> bool \<times> world" where
  "arxiv_try url output_path w =
     (case get_ok url w of
        (Inl e, w1) \<Rightarrow> (False, w1)
      | (Inr response, w1) \<Rightarrow>
          if is_pdf (content response)
          then (case write_suffixed output_path ''.pdf'' (content response) w1 of
                  Inl e \<Rightarrow> (False, w1)
                | Inr w2 \<Rightarrow> (True, w2))
          else (False, w1))"

fun arxiv_loop :: "string list \<Rightarrow> string \<Rightarrow> path \<Rightarrow> world \<Rightarrow> outcome \<times> world" where
  "arxiv_loop [] doi output_path w = (Inr (False, None), w)"
| "arxiv_loop (i # temp) doi output_path w =
     (let url = ''https://arxiv.org/pdf/'' @ i @ ''/'' @ doi in
      case arxiv_try url output_path w of
        (True, w1) \<Rightarrow> (Inr (True, Some url), w1)
      | (False, w1) \<Rightarrow> arxiv_loop temp doi output_path w1)"

definition fallback_arxiv :: "string \<Rightarrow> path \<Rightarrow> world \<Rightarrow> outcome \<times> world" where
  "fallback_arxiv doi0 output_path w =
     (if sublist ''arxiv'' doi0 then
        (case str_split ''arxiv.'' doi0 of
           _ # doi # _ \<Rightarrow>
             (let lenth = length (str_split ''.'' doi) in
              if lenth = 1
              then arxiv_loop [''physics'', ''astro-ph'', ''cond-mat''] doi output_path w
              else if lenth = 2
              then (let url = ''https://arxiv.org/pdf/'' @ doi in
                    case arxiv_try url output_path w of
                      (True, w1) \<Rightarrow> (Inr (True, Some url), w1)
                    | (False, w1) \<Rightarrow> (Inr (False, None), w1))
              else (Inr (False, None), w))
         | _ \<Rightarrow> (Inl IndexError, w))
      else (Inr (False, None), w))"

text \<open>
  \<^verbatim>\<open>fallback_bioc_pmc\<close>, lines 95-179. The query parameters of the converter request are
  written into the URL as \<^verbatim>\<open>requests\<close> encodes them (\<^verbatim>\<open>quote_plus\<close>: letters, digits and
  \<^verbatim>\<open>_.-~\<close> are kept, a space becomes \<^verbatim>\<open>+\<close>, every other byte becomes \<^verbatim>\<open>%XX\<close>). Both
  \<^verbatim>\<open>try\<close> blocks end in \<^verbatim>\<open>return False,None\<close>.
\<close>

definition hex_digit :: "nat \<Rightarrow> char" where
  "hex_digit n = ''0123456789ABCDEF'' ! n"

definition quote_plus_char :: "char \<Rightarrow> string" where
  "quote_plus_char c =
     (let n = (of_char c :: nat)
      in if (48 \<le> n \<and> n \<le> 57) \<or> (65 \<le> n \<and> n \<le> 90) \<or> (97 \<le> n \<and> n \<le> 122) \<or>
            c \<in> set ''_.-~''
         then [c]
         else if c = CHR '' '' then ''+''
         else [CHR ''%'', hex_digit (n div 16), hex_digit (n mod 16)])"

definition quote_plus :: "string \<Rightarrow> string" where
  "quote_plus s = concat (map quote_plus_char s)"

definition pmc_converter_url :: "string \<Rightarrow> string" where
  "pmc_converter_url doi =
     ''https://www.ncbi.nlm.nih.gov/pmc/utils/idconv/v1.0/?tool=paperscraper'' @
     ''&email=2987498538%40qq.com&ids='' @ quote_plus doi @ ''&idtype=doi&format=json''"

definition pmc_xml_url :: "string \<Rightarrow> string" where
  "pmc_xml_url pmcid =
     ''https://www.ncbi.nlm.nih.gov/research/bionlp/RESTful/pmcoa.cgi/BioC_xml/'' @ pmcid @
     ''/unicode''"

definition pmc_error_body :: string where
  "pmc_error_body =
     ''[Error] : No result can be found. <BR><HR><B> - '' @
     ''https://www.ncbi.nlm.nih.gov/research/bionlp/RESTful/''"

definition fallback_bioc_pmc :: "string \<Rightarrow> path \<Rightarrow> world \<Rightarrow> outcome \<times> world" where
  "fallback_bioc_pmc doi output_path w =
     (case get_ok (pmc_converter_url doi) w of
        (Inl e, w1) \<Rightarrow> (Inr (False, None), w1)
      | (Inr conv_response, w1) \<Rightarrow>
          (case json_records conv_response of
             Inl e \<Rightarrow> (Inr (False, None), w1)
           | Inr [] \<Rightarrow> (Inr (False, None), w1)
           | Inr (None # _) \<Rightarrow> (Inr (False, None), w1)
           | Inr (Some pmcid # _) \<Rightarrow>
               (let xml_url = pmc_xml_url pmcid in
                case get_ok xml_url w1 of
                  (Inl e, w2) \<Rightarrow> (Inr (False, None), w2)
                | (Inr xml_response, w2) \<Rightarrow>
                    (case with_suffix output_path ''.xml'' of
                       Inl e \<Rightarrow> (Inr (False, None), w2)
                     | Inr xml_path \<Rightarrow>
                         if prefix pmc_error_body (content xml_response)
                         then (Inr (False, None), w2)
                         else
                           (case write_file xml_path (content xml_response) w2 of
                              Inl e \<Rightarrow> (Inr (False, None), w2)
                            | Inr w3 \<Rightarrow> (Inr (True, Some xml_url), w3))))))"

text \<open>
  A record of the dump is a Python dictionary from field names to JSON values; the
  credentials are a dictionary from slot names to strings.
\<close>

datatype jvalue = JNull | JBool bool | JNum int | JStr string

type_synonym paper = "string \<rightharpoonup> jvalue"

type_synonym api_keys = "string \<rightharpoonup> string"

text \<open>Python's truth value of a JSON value.\<close>

fun truthy :: "jvalue \<Rightarrow> bool" where
  "truthy JNull = False"
| "truthy (JBool b) = b"
| "truthy (JNum n) = (n \<noteq> 0)"
| "truthy (JStr s) = (s \<noteq> [])"

text \<open>How an f-string prints a JSON value and an optional credential.\<close>

fun fstr :: "jvalue \<Rightarrow> string" where
  "fstr JNull = ''None''"
| "fstr (JBool b) = (if b then ''True'' else ''False'')"
| "fstr (JNum n) = (if n < 0 then ''-'' @ decimal (nat (- n)) else decimal (nat n))"
| "fstr (JStr s) = s"

definition fstr_key :: "string option \<Rightarrow> string" where
  "fstr_key k = (case k of None \<Rightarrow> ''None'' | Some v \<Rightarrow> v)"

text \<open>
  \<^verbatim>\<open>fallback_wiley_api\<close>, lines 28-92. It returns a bare boolean. \<open>wiley_loop n\<close> is the
  \<^verbatim>\<open>while\<close> loop with \<open>n\<close> attempts left; the sleeps change nothing the model keeps. The
  lookup of \<^verbatim>\<open>paper_metadata["doi"]\<close> and its \<^verbatim>\<open>replace\<close> are outside the \<^verbatim>\<open>try\<close>.
\<close>

fun wiley_loop :: "nat \<Rightarrow> string \<Rightarrow> path \<Rightarrow> world \<Rightarrow> bool \<times> world" where
  "wiley_loop 0 api_url output_path w = (False, w)"
| "wiley_loop (Suc n) api_url output_path w =
     (case get_ok api_url w of
        (Inl e2, w1) \<Rightarrow> wiley_loop n api_url output_path w1
      | (Inr api_response, w1) \<Rightarrow>
          if \<not> is_pdf (content api_response) then wiley_loop n api_url output_path w1
          else
            (case write_suffixed output_path ''.pdf'' (content api_response) w1 of
               Inl e2 \<Rightarrow> wiley_loop n api_url output_path w1
             | Inr w2 \<Rightarrow> (True, w2)))"

definition encode_slash :: "string \<Rightarrow> string" where
  "encode_slash s = concat (map (\<lambda>c. if c = CHR ''/'' then ''%2F'' else [c]) s)"

definition fallback_wiley_api ::
  "paper \<Rightarrow> path \<Rightarrow> api_keys \<Rightarrow> int \<Rightarrow> world \<Rightarrow> (error + bool) \<times> world" where
  "fallback_wiley_api paper_metadata output_path keys max_attempts w =
     (case paper_metadata ''doi'' of
        None \<Rightarrow> (Inl KeyError, w)
      | Some (JStr doi) \<Rightarrow>
          (let api_url =
                 ''https://api.wiley.com/onlinelibrary/tdm/v1/articles/'' @ encode_slash doi;
               (success, w') = wiley_loop (nat max_attempts) api_url output_path w
           in (Inr success, w'))
      | Some _ \<Rightarrow> (Inl AttributeError, w))"

text \<open>
  \<^verbatim>\<open>fallback_elsevier_api\<close>, lines 182-234. It returns a bare boolean and keeps no state:
  on status 401 it logs and returns \<^verbatim>\<open>False\<close>.
\<close>

definition elsevier_api_url :: "jvalue \<Rightarrow> api_keys \<Rightarrow> string" where
  "elsevier_api_url doi keys =
     ''https://api.elsevier.com/content/article/doi/'' @ fstr doi @ ''?apiKey='' @
     fstr_key (keys ''ELSEVIER_TDM_API_KEY'') @ ''&httpAccept=text%2Fxml''"

definition fallback_elsevier_api ::
  "paper \<Rightarrow> path \<Rightarrow> api_keys \<Rightarrow> world \<Rightarrow> (error + bool) \<times> world" where
  "fallback_elsevier_api paper_metadata output_path keys w =
     (case paper_metadata ''doi'' of
        None \<Rightarrow> (Inl KeyError, w)
      | Some doi \<Rightarrow>
          (case requests_get (elsevier_api_url doi keys) w of
             (Inl e, w1) \<Rightarrow> (Inr False, w1)
           | (Inr response, w1) \<Rightarrow>
               if status_code response = 401 then (Inr False, w1)
               else
                 (case raise_for_status response of
                    Inl e \<Rightarrow> (Inr False, w1)
                  | Inr _ \<Rightarrow>
                      if \<not> xml_ok response then (Inr False, w1)
                      else
                        (case write_suffixed output_path ''.xml'' (content response) w1 of
                           Inl e \<Rightarrow> (Inr False, w1)
                         | Inr w2 \<Rightarrow> (Inr True, w2)))))"

section \<open>\<^verbatim>\<open>save_pdf\<close>: the strategy chain of \<^verbatim>\<open>pdf.py\<close>\<close>

text \<open>
  The registry \<^verbatim>\<open>FALLBACKS\<close> maps a name to a strategy. \<^verbatim>\<open>save_pdf\<close> looks up four of its
  entries; the model takes the registry as an argument, so that the chain can be studied
  for any four strategies, and \<open>FALLBACKS\<close> is the registry of \<^verbatim>\<open>fallbacks.py\<close>. The
  \<^verbatim>\<open>proxies\<close> argument is handed to \<^verbatim>\<open>requests\<close> and is part of what the network answers.
\<close>

datatype chain_key = Arxiv | Doi | Sci_hub | Bioc_pmc

type_synonym strategy = "string \<Rightarrow> path \<Rightarrow> world \<Rightarrow> outcome \<times> world"

type_synonym registry = "chain_key \<Rightarrow> strategy"

fun FALLBACKS :: registry where
  "FALLBACKS Arxiv = fallback_arxiv"
| "FALLBACKS Doi = fallback_doi"
| "FALLBACKS Sci_hub = fallback_sci_hub"
| "FALLBACKS Bioc_pmc = fallback_bioc_pmc"

text \<open>
  The local variables of \<^verbatim>\<open>save_pdf\<close> (lines 66-93) while the chain runs, with the
  exception that has left a strategy, if any, the strategies invoked so far with what
  each returned, and the world.
\<close>

record chain_state =
  st_success :: bool
  st_url :: "string option"
  st_outputtype :: "string option"
  st_raised :: "error option"
  st_invoked :: "(chain_key \<times> outcome) list"
  st_world :: world

definition invoke :: "registry \<Rightarrow> chain_key \<Rightarrow> string \<Rightarrow> string \<Rightarrow> path \<Rightarrow> chain_state \<Rightarrow> chain_state" where
  "invoke F k kind doi output_path st =
     (case F k doi output_path (st_world st) of
        (Inl e, w') \<Rightarrow>
          st\<lparr>st_raised := Some e, st_invoked := st_invoked st @ [(k, Inl e)], st_world := w'\<rparr>
      | (Inr (success, url), w') \<Rightarrow>
          st\<lparr>st_success := success, st_url := url,
             st_outputtype := (if success then Some kind else st_outputtype st),
             st_invoked := st_invoked st @ [(k, Inr (success, url))], st_world := w'\<rparr>)"

text \<open>
  One member of the chain, \<^verbatim>\<open>if not success: success,url = FALLBACKS[k](...)\<close> followed by
  \<^verbatim>\<open>if success: outputtype = kind\<close>. Nothing runs after an exception has left the function.
\<close>

definition try_next ::
  "registry \<Rightarrow> chain_key \<Rightarrow> string \<Rightarrow> string \<Rightarrow> path \<Rightarrow> chain_state \<Rightarrow> chain_state" where
  "try_next F k kind doi output_path st =
     (if st_raised st = None \<and> \<not> st_success st then invoke F k kind doi output_path st
      else st)"

definition chain :: "registry \<Rightarrow> string \<Rightarrow> path \<Rightarrow> world \<Rightarrow> chain_state" where
  "chain F doi output_path w =
     (let st0 = \<lparr>st_success = False, st_url = None, st_outputtype = None, st_raised = None,
                  st_invoked = [], st_world = w\<rparr>;
          st1 = (if sublist ''arxiv'' doi then try_next F Arxiv ''pdf'' doi output_path st0
                 else st0);
          st2 = try_next F Doi ''pdf'' doi output_path st1;
          st3 = try_next F Sci_hub ''pdf'' doi output_path st2;
          st4 = try_next F Bioc_pmc ''xml'' doi output_path st3
      in st4)"

text \<open>
  \<^verbatim>\<open>save_pdf\<close>, lines 33-99. The dictionary is changed in place, so the result keeps its
  state also when an exception leaves the function. The credentials are taken as loaded
  (\<^verbatim>\<open>load_api_keys\<close> is not called for a dictionary, and the chain never reads them).
\<close>

record save_result =
  sr_raised :: "error option"
  sr_metadata :: paper
  sr_invoked :: "(chain_key \<times> outcome) list"
  sr_world :: world

definition jopt :: "string option \<Rightarrow> jvalue" where
  "jopt v = (case v of None \<Rightarrow> JNull | Some s \<Rightarrow> JStr s)"

definition save_pdf :: "registry \<Rightarrow> paper \<Rightarrow> path \<Rightarrow> world \<Rightarrow> save_result" where
  "save_pdf F paper_metadata output_path w =
     (case paper_metadata ''doi'' of
        None \<Rightarrow>
          \<lparr>sr_raised = Some KeyError, sr_metadata = paper_metadata, sr_invoked = [], sr_world = w\<rparr>
      | Some doi \<Rightarrow>
          if dirs w (fst output_path) = None
          then \<lparr>sr_raised = Some ValueError, sr_metadata = paper_metadata, sr_invoked = [],
                sr_world = w\<rparr>
          else
            (let pm1 = paper_metadata(''success'' \<mapsto> JBool False, ''type'' \<mapsto> JNull,
                         ''path'' \<mapsto> JNull, ''url'' \<mapsto> JNull)
             in case doi of
                  JStr d \<Rightarrow>
                    (let st = chain F d output_path w in
                     case st_raised st of
                       Some e \<Rightarrow>
                         \<lparr>sr_raised = Some e, sr_metadata = pm1, sr_invoked = st_invoked st,
                          sr_world = st_world st\<rparr>
                     | None \<Rightarrow>
                         (let pm2 = pm1(''success'' \<mapsto> JBool (st_success st),
                                    ''type'' \<mapsto> jopt (st_outputtype st),
                                    ''url'' \<mapsto> jopt (st_url st))
                          in if st_success st
                             then (case with_suffix output_path
                                          (''.'' @ fstr (jopt (st_outputtype st))) of
                                     Inl e \<Rightarrow>
                                       \<lparr>sr_raised = Some e, sr_metadata = pm2,
                                        sr_invoked = st_invoked st, sr_world = st_world st\<rparr>
                                   | Inr p \<Rightarrow>
                                       \<lparr>sr_raised = None,
                                        sr_metadata = pm2(''path'' \<mapsto> JStr (as_posix p)),
                                        sr_invoked = st_invoked st, sr_world = st_world st\<rparr>)
                             else \<lparr>sr_raised = None, sr_metadata = pm2,
                                   sr_invoked = st_invoked st, sr_world = st_world st\<rparr>))
                | _ \<Rightarrow>
                    \<lparr>sr_raised = Some TypeError, sr_metadata = pm1, sr_invoked = [],
                     sr_world = w\<rparr>))"

text \<open>
  The chain as the specification words it: the strategies of a fixed list are tried in
  order, and the first one that does not decline ends the run.
\<close>

fun declined :: "outcome \<Rightarrow> bool" where
  "declined (Inr (False, u)) = True"
| "declined (Inr (True, u)) = False"
| "declined (Inl e) = False"

definition chain_order :: "string \<Rightarrow> chain_key list" where
  "chain_order doi = (if sublist ''arxiv'' doi then [Arxiv] else []) @ [Doi, Sci_hub, Bioc_pmc]"

fun first_success ::
  "registry \<Rightarrow> chain_key list \<Rightarrow> string \<Rightarrow> path \<Rightarrow> world \<Rightarrow> (chain_key \<times> outcome) list \<times> world" where
  "first_success F [] doi output_path w = ([], w)"
| "first_success F (k # ks) doi output_path w =
     (case F k doi output_path w of
        (r, w') \<Rightarrow>
          if declined r
          then (case first_success F ks doi output_path w' of (t, w'') \<Rightarrow> ((k, r) # t, w''))
          else ([(k, r)], w'))"

text \<open>The run of a list of chain members, used to relate the two.\<close>

definition active :: "chain_state \<Rightarrow> bool" where
  "active st = (st_raised st = None \<and> \<not> st_success st)"

fun guarded_run ::
  "registry \<Rightarrow> (chain_key \<times> string) list \<Rightarrow> string \<Rightarrow> path \<Rightarrow> chain_state \<Rightarrow> chain_state" where
  "guarded_run F [] d out st = st"
| "guarded_run F ((k, kind) # ks) d out st =
     guarded_run F ks d out (try_next F k kind d out st)"

section \<open>\<^verbatim>\<open>_process_single_paper\<close>: one task of the orchestrator\<close>

text \<open>
  What a task leaves behind: whether it returned the dictionary (\<open>True\<close>) or \<^verbatim>\<open>None\<close>, the
  dictionary after the call (it is changed in place, and the state-store holds the same
  object), the strategies invoked and the world.
\<close>

record task_result =
  tr_returned :: bool
  tr_paper :: paper
  tr_invoked :: "(chain_key \<times> outcome) list"
  tr_world :: world

text \<open>
  The loop of lines 368-381 over the entries of the parent of the output directory: the
  first sub-directory in which \<^verbatim>\<open>filename.pdf\<close> exists, or else \<^verbatim>\<open>filename.xml\<close>, decides.
  \<open>hit\<close> says that an entry is such a sub-directory.
\<close>

fun dedup :: "world \<Rightarrow> string \<Rightarrow> string \<Rightarrow> (string \<times> bool) list \<Rightarrow> (string \<times> path) option" where
  "dedup w parent filename [] = None"
| "dedup w parent filename ((name, is_dir) # rest) =
     (if is_dir
      then (let subdir = joinpath parent name;
                file_path_pdf = (subdir, filename @ ''.pdf'');
                file_path_xml = (subdir, filename @ ''.xml'')
            in if path_exists w file_path_pdf then Some (''pdf'', file_path_pdf)
               else if path_exists w file_path_xml then Some (''xml'', file_path_xml)
               else dedup w parent filename rest)
      else dedup w parent filename rest)"

definition hit :: "world \<Rightarrow> string \<Rightarrow> string \<Rightarrow> string \<times> bool \<Rightarrow> bool" where
  "hit w parent filename e =
     (snd e \<and>
      (path_exists w (joinpath parent (fst e), filename @ ''.pdf'') \<or>
       path_exists w (joinpath parent (fst e), filename @ ''.xml'')))"

text \<open>
  \<^verbatim>\<open>_process_single_paper\<close>, lines 340-398 (\<open>process_single_paper\<close> here). The output
  directory is given as a path, so its parent is at hand. Every exception inside ends in
  \<^verbatim>\<open>return paper\<close>. The three calls of \<^verbatim>\<open>save_pdf\<close> differ in the proxies only, which are
  part of what the network answers.
\<close>

definition process_single_paper ::
  "registry \<Rightarrow> paper \<Rightarrow> path \<Rightarrow> string \<Rightarrow> world \<Rightarrow> task_result" where
  "process_single_paper F paper pdf_path key_to_save w =
     (let unchanged = \<lparr>tr_returned = True, tr_paper = paper, tr_invoked = [], tr_world = w\<rparr>;
          none = \<lparr>tr_returned = False, tr_paper = paper, tr_invoked = [], tr_world = w\<rparr>
      in case paper ''success'' of
           None \<Rightarrow> unchanged
         | Some s \<Rightarrow>
             if truthy s then none
             else
               (case paper ''is_materials'' of
                  None \<Rightarrow> unchanged
                | Some m \<Rightarrow>
                    if m = JBool False then none
                    else
                      (let paper1 = paper(''success'' \<mapsto> JBool False, ''type'' \<mapsto> JNull,
                                      ''path'' \<mapsto> JNull, ''url'' \<mapsto> JNull)
                       in if paper1 ''doi'' = None \<or> paper1 ''doi'' = Some JNull
                          then none\<lparr>tr_paper := paper1\<rparr>
                          else
                            (case paper1 key_to_save of
                               Some (JStr ident) \<Rightarrow>
                                 (let filename = replace_slash ident;
                                      pdf_file = (as_posix pdf_path, filename @ ''.pdf'')
                                  in case dirs w (fst pdf_path) of
                                       None \<Rightarrow> unchanged\<lparr>tr_paper := paper1\<rparr>
                                     | Some entries \<Rightarrow>
                                         (case dedup w (fst pdf_path) filename entries of
                                            Some (kind, p) \<Rightarrow>
                                              unchanged\<lparr>tr_paper :=
                                                paper1(''success'' \<mapsto> JBool True,
                                                  ''type'' \<mapsto> JStr kind,
                                                  ''path'' \<mapsto> JStr (as_posix p))\<rparr>
                                          | None \<Rightarrow>
                                              (let r = save_pdf F paper1 pdf_file w
                                               in \<lparr>tr_returned = True,
                                                   tr_paper = sr_metadata r,
                                                   tr_invoked = sr_invoked r,
                                                   tr_world = sr_world r\<rparr>)))
                             | _ \<Rightarrow> unchanged\<lparr>tr_paper := paper1\<rparr>))))"

section \<open>\<^verbatim>\<open>save_pdf_from_dump_new\<close>: the orchestrator and its state-store\<close>

text \<open>
  The state-store \<^verbatim>\<open>metadict\<close> is a Python dictionary from identifiers to records, in
  insertion order. Python treats \<^verbatim>\<open>True\<close> and \<^verbatim>\<open>1\<close> (and \<^verbatim>\<open>False\<close> and \<^verbatim>\<open>0\<close>) as the same
  key, which \<open>hash_key\<close> expresses. \<open>dict_set\<close> is \<^verbatim>\<open>metadict[k] = v\<close>. The workers change
  the records in place, and the dictionary holds the same objects: \<open>dict_mutate\<close> is the
  effect on the state-store of a change to the record stored under a key.
\<close>

type_synonym metadict = "(jvalue \<times> paper) list"

fun hash_key :: "jvalue \<Rightarrow> jvalue" where
  "hash_key (JBool b) = JNum (if b then 1 else 0)"
| "hash_key v = v"

fun dict_set :: "metadict \<Rightarrow> jvalue \<Rightarrow> paper \<Rightarrow> metadict" where
  "dict_set [] k v = [(k, v)]"
| "dict_set ((k', v') # rest) k v =
     (if hash_key k' = hash_key k then (k', v) # rest else (k', v') # dict_set rest k v)"

definition dict_mutate :: "metadict \<Rightarrow> jvalue \<Rightarrow> paper \<Rightarrow> metadict" where
  "dict_mutate md k p = map (\<lambda>(k', v'). if hash_key k' = hash_key k then (k', p) else (k', v')) md"

text \<open>
  Lines 443-449: the lines of the dump, parsed, enter the dictionary under their
  \<^verbatim>\<open>doi\<close>. Lines 463-466: the tasks are the stored records with a true \<^verbatim>\<open>is_materials\<close>
  and a false \<^verbatim>\<open>success\<close>.
\<close>

fun load_dump :: "paper list \<Rightarrow> metadict \<Rightarrow> error + metadict" where
  "load_dump [] metadict = Inr metadict"
| "load_dump (paper # rest) metadict =
     (case paper ''doi'' of
        None \<Rightarrow> Inl KeyError
      | Some d \<Rightarrow> load_dump rest (dict_set metadict d paper))"

fun scheduled :: "paper list \<Rightarrow> error + paper list" where
  "scheduled [] = Inr []"
| "scheduled (paper # rest) =
     (case paper ''is_materials'' of
        None \<Rightarrow> Inl KeyError
      | Some m \<Rightarrow>
          if \<not> truthy m
          then scheduled rest
          else (case paper ''success'' of
                  None \<Rightarrow> Inl KeyError
                | Some s \<Rightarrow>
                    (case scheduled rest of
                       Inl e \<Rightarrow> Inl e
                     | Inr tasks \<Rightarrow> Inr (if \<not> truthy s then paper # tasks else tasks))))"

text \<open>
  The futures in the order \<^verbatim>\<open>as_completed\<close> yields them. A cancelled future is skipped.
  A completed one carries what its task did: the key of the task's record, whether the
  task returned the record (or \<^verbatim>\<open>None\<close>), the record after the task, and what the check
  after the task observes: \<^verbatim>\<open>len(os.listdir(pdf_path))\<close> (or the exception of
  \<^verbatim>\<open>listdir\<close>) and the answer of \<^verbatim>\<open>stop_event.is_set()\<close> when there is an event object.
  Any sequence of events is admitted, which covers every schedule of the worker pool.
\<close>

datatype event =
    Cancelled
  | Completed jvalue bool paper "error + nat" bool

definition task_event :: "task_result \<Rightarrow> jvalue \<Rightarrow> error + nat \<Rightarrow> bool \<Rightarrow> event" where
  "task_event r k listed stop = Completed k (tr_returned r) (tr_paper r) listed stop"

text \<open>
  The loop of lines 487-519. \<open>has_event\<close> is \<^verbatim>\<open>stop_event is not None\<close>. The lookup
  \<^verbatim>\<open>metadata["doi"]\<close> of a record without that key raises inside the \<^verbatim>\<open>try\<close> and again
  inside its handler, which formats the same lookup; a missing \<^verbatim>\<open>success\<close> is logged by
  the handler. Cancelling the pending futures changes no state of the loop. The check of
  line 514 is outside the \<^verbatim>\<open>try\<close>: with no event object its second operand raises
  \<^verbatim>\<open>AttributeError\<close> whenever the first is false.
\<close>

fun completions ::
  "bool \<Rightarrow> int \<Rightarrow> event list \<Rightarrow> metadict \<Rightarrow> error + metadict" where
  "completions has_event max_pdf_num [] metadict = Inr metadict"
| "completions has_event max_pdf_num (Cancelled # evs) metadict =
     completions has_event max_pdf_num evs metadict"
| "completions has_event max_pdf_num (Completed k returned p listed stop # evs) metadict =
     (let md1 = dict_mutate metadict k p in
      if \<not> returned then completions has_event max_pdf_num evs md1
      else
        (case p ''doi'' of
           None \<Rightarrow> Inl KeyError
         | Some d \<Rightarrow>
             (let md2 = dict_set md1 d p in
              case listed of
                Inl e \<Rightarrow> Inl e
              | Inr n \<Rightarrow>
                  if int n > max_pdf_num then completions has_event max_pdf_num evs md2
                  else if \<not> has_event then Inl AttributeError
                  else completions has_event max_pdf_num evs md2)))"

text \<open>
  \<open>f_save_metadata\<close>, lines 473-477. \<open>dump\<close> is the content of the file at \<^verbatim>\<open>dump_path\<close>, one
  record per line (\<open>None\<close> when the file does not exist); a line stands for its JSON text.
  Opening the file for writing empties it, and every value of \<^verbatim>\<open>metadict\<close> is then written
  in order. The fault says what the file system and the encoder do to this flush:
  nothing, \<^verbatim>\<open>open\<close> raises (the file is left as it was), or the write of the line with
  the given index raises (the lines before it are in the file).
\<close>

datatype flush_fault = No_fault | Open_fails error | Write_fails nat error

definition f_save_metadata ::
  "flush_fault \<Rightarrow> metadict \<Rightarrow> paper list option \<Rightarrow> error option \<times> paper list option" where
  "f_save_metadata fault metadict dump =
     (case fault of
        No_fault \<Rightarrow> (None, Some (map snd metadict))
      | Open_fails e \<Rightarrow> (Some e, dump)
      | Write_fails n e \<Rightarrow>
          if n < length metadict then (Some e, Some (take n (map snd metadict)))
          else (None, Some (map snd metadict)))"

text \<open>
  \<^verbatim>\<open>save_pdf_from_dump_new\<close>, lines 402-524. \<open>stop_after\<close> is the answer of
  \<^verbatim>\<open>stop_event.is_set()\<close> after the flush. The result holds how the call ended, the
  state-store, the tasks that were scheduled and the content of the file. The lines of
  the dump are taken as parsed.
\<close>

datatype ending = Returned | Exited | Raised error

record run =
  or_ending :: ending
  or_metadict :: metadict
  or_tasks :: "paper list"
  or_dump :: "paper list option"

definition save_pdf_from_dump_new ::
  "string \<Rightarrow> string \<Rightarrow> int \<Rightarrow> bool \<Rightarrow> paper list option \<Rightarrow> event list \<Rightarrow> bool \<Rightarrow>
   flush_fault \<Rightarrow> run" where
  "save_pdf_from_dump_new dump_path key_to_save max_pdf_num has_event dump evs stop_after
       fault =
     (let failed = (\<lambda>e. \<lparr>or_ending = Raised e, or_metadict = [], or_tasks = [], or_dump = dump\<rparr>)
      in if \<not> suffix ''.jsonl'' dump_path then failed ValueError
         else if key_to_save \<notin> set [''doi'', ''title'', ''date''] then failed ValueError
         else
           (case load_dump (case dump of None \<Rightarrow> [] | Some lines \<Rightarrow> lines) [] of
              Inl e \<Rightarrow> failed e
            | Inr metadict \<Rightarrow>
                (case scheduled (map snd metadict) of
                   Inl e \<Rightarrow> (failed e)\<lparr>or_metadict := metadict\<rparr>
                 | Inr tasks \<Rightarrow>
                     (case completions has_event max_pdf_num evs metadict of
                        Inl e \<Rightarrow>
                          \<lparr>or_ending = Raised e, or_metadict = metadict, or_tasks = tasks,
                           or_dump = dump\<rparr>
                      | Inr md \<Rightarrow>
                          (case f_save_metadata fault md dump of
                             (Some e, dump') \<Rightarrow>
                               \<lparr>or_ending = Raised e, or_metadict = md, or_tasks = tasks,
                                or_dump = dump'\<rparr>
                           | (None, dump') \<Rightarrow>
                               \<lparr>or_ending =
                                  (if \<not> has_event then Raised AttributeError
                                   else if stop_after then Exited else Returned),
                                or_metadict = md, or_tasks = tasks, or_dump = dump'\<rparr>)))))"

text \<open>
  The identifiers of a state-store; an event that the loop can serve without any other
  exception than the one of the missing event object; an event at whose check the entry
  count is at or below the quota.
\<close>

definition dict_keys :: "metadict \<Rightarrow> jvalue list" where
  "dict_keys md = map (\<lambda>e. hash_key (fst e)) md"

fun well_served :: "event \<Rightarrow> bool" where
  "well_served Cancelled = True"
| "well_served (Completed k returned p listed stop) =
     (\<not> returned \<or> (p ''doi'' \<noteq> None \<and> (\<exists>n. listed = Inr n)))"

fun checks_stop :: "int \<Rightarrow> event \<Rightarrow> bool" where
  "checks_stop max_pdf_num Cancelled = False"
| "checks_stop max_pdf_num (Completed k returned p listed stop) =
     (returned \<and> (case listed of Inl e \<Rightarrow> False | Inr n \<Rightarrow> int n \<le> max_pdf_num))"

section \<open>The archive locator: \<^verbatim>\<open>find_meca_for_doi\<close> and \<^verbatim>\<open>fallback_s3\<close>\<close>

text \<open>
  The requester-pays bucket as the client sees it, with the two libraries the locator
  relies on. \<open>details\<close> is the date lookup of \<^verbatim>\<open>month_folder\<close>. \<open>list_objects\<close> gives the
  keys under a prefix, over all pages, or the exception of the paginator. \<open>get_object\<close>
  reads an object in full or one of the two ranges \<^verbatim>\<open>bytes=0-4095\<close> and \<^verbatim>\<open>bytes=-4096\<close>, or
  raises. \<open>unzip\<close> is \<^verbatim>\<open>zipfile.ZipFile(io.BytesIO(data))\<close>: the members in the order of
  \<^verbatim>\<open>namelist()\<close>, or the exception of the constructor. A member is its name, the bytes
  that reading it delivers, and the exception that reading it ends in, if any (a bad
  checksum, data outside the window). \<open>getinfo\<close> is the lookup by name, in which the last
  member of a name wins.
\<close>

datatype byte_range = First_4096 | Last_4096 | Whole

type_synonym zip_member = "string \<times> string \<times> error option"

record archive =
  details :: "string \<Rightarrow> error + date"
  list_objects :: "string \<Rightarrow> error + string list"
  get_object :: "string \<Rightarrow> byte_range \<Rightarrow> error + string"
  unzip :: "string \<Rightarrow> error + zip_member list"

definition getinfo :: "zip_member list \<Rightarrow> string \<Rightarrow> (string \<times> error option) option" where
  "getinfo z name = map_of (rev z) name"

definition zip_read :: "zip_member list \<Rightarrow> string \<Rightarrow> error + string" where
  "zip_read z name =
     (case getinfo z name of
        None \<Rightarrow> Inl KeyError
      | Some (data, None) \<Rightarrow> Inr data
      | Some (data, Some e) \<Rightarrow> Inl e)"

text \<open>\<^verbatim>\<open>list_meca_keys\<close>, lines 347-367.\<close>

definition list_meca_keys :: "archive \<Rightarrow> string \<Rightarrow> error + string list" where
  "list_meca_keys s3 pfx =
     (case list_objects s3 pfx of
        Inl e \<Rightarrow> Inl e
      | Inr objs \<Rightarrow> Inr (filter (\<lambda>key. suffix ''.meca'' key) objs))"

text \<open>
  \<^verbatim>\<open>find_meca_for_doi\<close>, lines 370-400, with the ranged reads it has issued. Only the two
  reads are inside the \<^verbatim>\<open>try\<close>; the exceptions of \<^verbatim>\<open>ZipFile\<close> and of \<^verbatim>\<open>z.read\<close> leave the
  function.
\<close>

definition find_meca_for_doi ::
  "archive \<Rightarrow> string \<Rightarrow> string \<Rightarrow> (error + bool) \<times> byte_range list" where
  "find_meca_for_doi s3 key doi_token =
     (case get_object s3 key First_4096 of
        Inl e \<Rightarrow> (Inr False, [First_4096])
      | Inr head \<Rightarrow>
          (case get_object s3 key Last_4096 of
             Inl e \<Rightarrow> (Inr False, [First_4096, Last_4096])
           | Inr tail \<Rightarrow>
               (let data = head @ tail in
                case unzip s3 data of
                  Inl e \<Rightarrow> (Inl e, [First_4096, Last_4096])
                | Inr z \<Rightarrow>
                    (case zip_read z ''manifest.xml'' of
                       Inl e \<Rightarrow> (Inl e, [First_4096, Last_4096])
                     | Inr manifest \<Rightarrow>
                         (let doi_token' = last (str_split ''.'' doi_token)
                          in (Inr (sublist doi_token' (lower manifest)),
                              [First_4096, Last_4096]))))))"

text \<open>
  The loop of lines 446-459 over the probes in the order in which they complete: the
  first probe that returns \<^verbatim>\<open>True\<close> gives the target; a probe that raised is passed over.
\<close>

fun scan :: "archive \<Rightarrow> string \<Rightarrow> string list \<Rightarrow> string option" where
  "scan s3 token [] = None"
| "scan s3 token (key # rest) =
     (case fst (find_meca_for_doi s3 key token) of
        Inr True \<Rightarrow> Some key
      | _ \<Rightarrow> scan s3 token rest)"

text \<open>
  The test \<^verbatim>\<open>name.lower().endswith(".pdf")\<close>. \<open>extract_target\<close> is the path \<^verbatim>\<open>z.extract\<close>
  writes a member to: below the parent, along the components of the name that are not
  empty, \<^verbatim>\<open>.\<close> or \<^verbatim>\<open>..\<close>. \<open>rename_source\<close> is the path \<^verbatim>\<open>output_path.parent / name\<close>, in
  which \<^verbatim>\<open>pathlib\<close> keeps \<^verbatim>\<open>..\<close> and lets an absolute name replace the parent. Paths are
  compared as strings, which suits a file system without symbolic links and a parent
  without \<^verbatim>\<open>..\<close>.
\<close>

definition is_pdf_name :: "string \<Rightarrow> bool" where
  "is_pdf_name name = suffix ''.pdf'' (lower name)"

definition to_path :: "string list \<Rightarrow> string \<Rightarrow> path" where
  "to_path parts start = (foldl joinpath start (butlast parts), last parts)"

definition extract_target :: "string \<Rightarrow> string \<Rightarrow> path" where
  "extract_target parent name =
     to_path (filter (\<lambda>x. x \<noteq> [] \<and> x \<noteq> ''.'' \<and> x \<noteq> ''..'') (str_split ''/'' name)) parent"

definition rename_source :: "string \<Rightarrow> string \<Rightarrow> path" where
  "rename_source parent name =
     (let parts = filter (\<lambda>x. x \<noteq> [] \<and> x \<noteq> ''.'') (str_split ''/'' name)
      in if prefix ''/'' name
         then to_path parts (if prefix ''//'' name \<and> \<not> prefix ''///'' name then ''//'' else ''/'')
         else to_path parts parent)"

text \<open>
  What the file system does to the last two steps: nothing, \<^verbatim>\<open>z.extract\<close> raises before
  it writes, or \<^verbatim>\<open>rename\<close> raises.
\<close>

datatype fs_fault = Fs_ok | Extract_fails error | Rename_fails error

record s3_result =
  s3_returned :: "error + bool"
  s3_fetched :: "string list"
  s3_world :: world

text \<open>
  Lines 474-477 for the member \<open>name\<close>: extraction writes what reading the member
  delivers and raises if the reading does; the extracted file is then renamed to the
  destination with the suffix \<^verbatim>\<open>.pdf\<close>. \<^verbatim>\<open>rename\<close> raises when nothing is at its source.
\<close>

definition extract_pdf ::
  "zip_member list \<Rightarrow> string \<Rightarrow> path \<Rightarrow> fs_fault \<Rightarrow> string list \<Rightarrow> world \<Rightarrow> s3_result" where
  "extract_pdf z name output_path fault fetched w =
     (case getinfo z name of
        None \<Rightarrow> \<lparr>s3_returned = Inl KeyError, s3_fetched = fetched, s3_world = w\<rparr>
      | Some (data, member_fault) \<Rightarrow>
          (case fault of
             Extract_fails e \<Rightarrow> \<lparr>s3_returned = Inl e, s3_fetched = fetched, s3_world = w\<rparr>
           | _ \<Rightarrow>
               (let target = extract_target (fst output_path) name;
                    src = rename_source (fst output_path) name;
                    w1 = w\<lparr>files := (files w)(target \<mapsto> data)\<rparr>
                in case member_fault of
                     Some e \<Rightarrow> \<lparr>s3_returned = Inl e, s3_fetched = fetched, s3_world = w1\<rparr>
                   | None \<Rightarrow>
                       (case with_suffix output_path ''.pdf'' of
                          Inl e \<Rightarrow>
                            \<lparr>s3_returned = Inl e, s3_fetched = fetched, s3_world = w1\<rparr>
                        | Inr dest \<Rightarrow>
                            (case fault of
                               Rename_fails e \<Rightarrow>
                                 \<lparr>s3_returned = Inl e, s3_fetched = fetched, s3_world = w1\<rparr>
                             | _ \<Rightarrow>
                                 (case files w1 src of
                                    None \<Rightarrow>
                                      \<lparr>s3_returned = Inl FileNotFoundError,
                                       s3_fetched = fetched, s3_world = w1\<rparr>
                                  | Some moved \<Rightarrow>
                                      \<lparr>s3_returned = Inr True, s3_fetched = fetched,
                                       s3_world = w1\<lparr>files :=
                                         ((files w1)(src := None))(dest \<mapsto> moved)\<rparr>\<rparr>))))))"

text \<open>
  \<^verbatim>\<open>fallback_s3\<close>, lines 403-478, with the keys it has fetched in full. \<open>order\<close> is the
  order in which the probes complete; only candidates of the listing are probed. The
  credentials and the worker count are part of what the bucket answers. The function
  returns a bare boolean and has no handler around the date lookup, the listing, the
  full fetch, the opening of the container, the extraction and the renaming.
\<close>

definition fallback_s3 ::
  "archive \<Rightarrow> string \<Rightarrow> path \<Rightarrow> string list \<Rightarrow> fs_fault \<Rightarrow> world \<Rightarrow> s3_result" where
  "fallback_s3 s3 doi output_path order fault w =
     (case month_folder (details s3) doi of
        Inl e \<Rightarrow> \<lparr>s3_returned = Inl e, s3_fetched = [], s3_world = w\<rparr>
      | Inr folder \<Rightarrow>
          (case list_meca_keys s3 (''Current_Content/'' @ folder @ ''/'') of
             Inl e \<Rightarrow> \<lparr>s3_returned = Inl e, s3_fetched = [], s3_world = w\<rparr>
           | Inr meca_keys \<Rightarrow>
               if meca_keys = [] then \<lparr>s3_returned = Inr False, s3_fetched = [], s3_world = w\<rparr>
               else
                 (let token = lower (last (str_split ''/'' doi))
                  in case scan s3 token (filter (\<lambda>key. key \<in> set meca_keys) order) of
                       None \<Rightarrow> \<lparr>s3_returned = Inr False, s3_fetched = [], s3_world = w\<rparr>
                     | Some target \<Rightarrow>
                         (case get_object s3 target Whole of
                            Inl e \<Rightarrow>
                              \<lparr>s3_returned = Inl e, s3_fetched = [target], s3_world = w\<rparr>
                          | Inr data \<Rightarrow>
                              (case unzip s3 data of
                                 Inl e \<Rightarrow>
                                   \<lparr>s3_returned = Inl e, s3_fetched = [target], s3_world = w\<rparr>
                               | Inr z \<Rightarrow>
                                   (case find is_pdf_name (map fst z) of
                                      None \<Rightarrow>
                                        \<lparr>s3_returned = Inr False, s3_fetched = [target],
                                         s3_world = w\<rparr>
                                    | Some name \<Rightarrow>
                                        extract_pdf z name output_path fault [target] w))))))"

section \<open>Worlds used to state and to exercise the properties\<close>

text \<open>No response the network can deliver carries the PDF signature.\<close>

definition no_pdf_body :: "world \<Rightarrow> bool" where
  "no_pdf_body w = (\<forall>n u r. net w n u = Inr r \<longrightarrow> \<not> is_pdf (content r))"

text \<open>
  A world whose every request is answered with status 200 and an HTML page that names a
  PDF link; nothing has been requested, no file exists, the directory \<^verbatim>\<open>out/pdf\<close> does.
\<close>

definition html_page :: response where
  "html_page =
     \<lparr>status_code = 200, content = ''<html>no pdf here</html>'',
      citation_pdf_url = Some ''https://host/paper.pdf'',
      iframe = Some (Some ''//host/paper.pdf''), embed = None,
      json_records = Inr [], xml_ok = False\<rparr>"

definition html_world :: world where
  "html_world =
     \<lparr>net = (\<lambda>n u. Inr html_page), requested = [], files = Map.empty,
      dirs = [''out/pdf'' \<mapsto> []]\<rparr>"

text \<open>A world whose every request is answered with status 200 and a PDF body.\<close>

definition pdf_page :: response where
  "pdf_page =
     \<lparr>status_code = 200, content = ''%PDF-1.4 body'',
      citation_pdf_url = Some ''https://host/paper.pdf'',
      iframe = Some (Some ''//host/paper.pdf''), embed = None,
      json_records = Inr [], xml_ok = False\<rparr>"

definition pdf_world :: world where
  "pdf_world =
     \<lparr>net = (\<lambda>n u. Inr pdf_page), requested = [], files = Map.empty,
      dirs = [''out/pdf'' \<mapsto> []]\<rparr>"

text \<open>
  A world whose every request is answered with status 401 and the body the Elsevier API
  sends for a rejected key; a record and the credentials of a run that holds such a key.
\<close>

definition unauthorized_page :: response where
  "unauthorized_page =
     \<lparr>status_code = 401, content = ''<error>APIKEY_INVALID</error>'',
      citation_pdf_url = None, iframe = None, embed = None,
      json_records = Inl JSONDecodeError, xml_ok = True\<rparr>"

definition unauthorized_world :: world where
  "unauthorized_world =
     \<lparr>net = (\<lambda>n u. Inr unauthorized_page), requested = [], files = Map.empty,
      dirs = [''out/pdf'' \<mapsto> []]\<rparr>"

definition elsevier_paper :: paper where
  "elsevier_paper = [''doi'' \<mapsto> JStr ''10.1016/j.x.2020.01.001'']"

definition bad_keys :: api_keys where
  "bad_keys = [''ELSEVIER_TDM_API_KEY'' \<mapsto> ''badkey'']"

text \<open>
  A pending record, and a world in which an earlier run left its PDF in the sibling
  directory \<^verbatim>\<open>kw0\<close> of the output directory \<^verbatim>\<open>kw1\<close>.
\<close>

definition pending_paper :: paper where
  "pending_paper =
     [''doi'' \<mapsto> JStr ''10.1000/xyz'', ''success'' \<mapsto> JBool False,
      ''is_materials'' \<mapsto> JBool True]"

definition duplicate_world :: world where
  "duplicate_world =
     \<lparr>net = (\<lambda>n u. Inr pdf_page), requested = [],
      files = [(''out/pdf/kw0'', ''10.1000_xyz.pdf'') \<mapsto> ''%PDF-1.4 body''],
      dirs = [''out/pdf'' \<mapsto> [(''kw0'', True), (''kw1'', True)],
              ''out/pdf/kw0'' \<mapsto> [(''10.1000_xyz.pdf'', False)],
              ''out/pdf/kw1'' \<mapsto> []]\<rparr>"

text \<open>
  Runs of the orchestrator over a dump of one record whose task is the one above: with
  an event object and the quota exceeded, without an event object, and without an event
  object for a record whose identifier is null.
\<close>

definition adopted_paper :: paper where
  "adopted_paper =
     pending_paper(''url'' \<mapsto> JNull, ''success'' \<mapsto> JBool True, ''type'' \<mapsto> JStr ''pdf'',
       ''path'' \<mapsto> JStr ''out/pdf/kw0/10.1000_xyz.pdf'')"

definition quota_run :: run where
  "quota_run =
     save_pdf_from_dump_new ''out/doi/kw1.jsonl'' ''doi'' 0 True (Some [pending_paper])
       [task_event
          (process_single_paper FALLBACKS pending_paper (''out/pdf'', ''kw1'') ''doi''
             duplicate_world)
          (JStr ''10.1000/xyz'') (Inr 1) False]
       False No_fault"

definition null_paper :: paper where
  "null_paper =
     [''doi'' \<mapsto> JNull, ''success'' \<mapsto> JBool False, ''is_materials'' \<mapsto> JBool True]"

definition null_run :: run where
  "null_run =
     save_pdf_from_dump_new ''out/doi/kw1.jsonl'' ''doi'' 500 False (Some [null_paper])
       [task_event
          (process_single_paper FALLBACKS null_paper (''out/pdf'', ''kw1'') ''doi'' html_world)
          JNull (Inr 0) False]
       False No_fault"

definition abort_run :: run where
  "abort_run =
     save_pdf_from_dump_new ''out/doi/kw1.jsonl'' ''doi'' 500 False (Some [pending_paper])
       [task_event
          (process_single_paper FALLBACKS pending_paper (''out/pdf'', ''kw1'') ''doi''
             duplicate_world)
          (JStr ''10.1000/xyz'') (Inr 1) False]
       False No_fault"

text \<open>
  A world in which the sibling directory \<^verbatim>\<open>kw0\<close> holds a directory named like the PDF and
  the sibling \<^verbatim>\<open>kw1\<close> holds the XML file of an earlier run.
\<close>

definition directory_world :: world where
  "directory_world =
     \<lparr>net = (\<lambda>n u. Inr pdf_page), requested = [],
      files = [(''out/pdf/kw1'', ''10.1000_xyz.xml'') \<mapsto> ''<xml/>''],
      dirs = [''out/pdf'' \<mapsto> [(''kw0'', True), (''kw1'', True)],
              ''out/pdf/kw0'' \<mapsto> [(''10.1000_xyz.pdf'', True)],
              ''out/pdf/kw0/10.1000_xyz.pdf'' \<mapsto> [],
              ''out/pdf/kw1'' \<mapsto> [(''10.1000_xyz.xml'', False)]]\<rparr>"

text \<open>
  A bucket with one container for October 2019 whose manifest names the identifier
  \<^verbatim>\<open>798496\<close> and whose member \<^verbatim>\<open>content/798496.pdf\<close> is an HTML page.
\<close>

definition plain_members :: "zip_member list" where
  "plain_members =
     [(''manifest.xml'', ''<doi>10.1101/798496</doi>'', None),
      (''content/798496.pdf'', ''<html>not a pdf</html>'', None)]"

definition plain_archive :: archive where
  "plain_archive =
     \<lparr>details = (\<lambda>u. Inr \<lparr>year = 2019, month = 10, day = 3\<rparr>),
      list_objects = (\<lambda>p. Inr [''Current_Content/October_2019/a.meca'',
                                ''Current_Content/October_2019/readme.txt'']),
      get_object = (\<lambda>k r. Inr ''PK''),
      unzip = (\<lambda>d. Inr plain_members)\<rparr>"

text \<open>A bucket and a date service that cannot be reached.\<close>

definition unreachable_archive :: archive where
  "unreachable_archive =
     \<lparr>details = (\<lambda>u. Inl RequestException), list_objects = (\<lambda>p. Inl ClientError),
      get_object = (\<lambda>k r. Inl ClientError), unzip = (\<lambda>d. Inl BadZipFile)\<rparr>"

section \<open>Properties\<close>

lemma roll_date_last_day:
  assumes "valid_date d" and "year d < 9999" and "day d = monthrange_days (year d) (month d)"
  shows "roll_date d =
    Inr (if month d = 12 then d\<lparr>year := year d + 1, month := 1, day := 1\<rparr>
         else d\<lparr>month := month d + 1, day := 1\<rparr>)"
  using assms by (simp add: roll_date_def add_one_day_def valid_date_def)

lemma roll_date_other_day:
  assumes "day d \<noteq> monthrange_days (year d) (month d)"
  shows "roll_date d = Inr d"
  using assms by (simp add: roll_date_def)

text \<open>
  C9. For a valid deposit date before the last year \<^verbatim>\<open>datetime\<close> can represent,
  \<^verbatim>\<open>month_folder\<close> returns the bucket of the following month when the date is the last
  day of its month, and the bucket of the date's own month otherwise.
\<close>

theorem month_folder_bucket:
  assumes "lookup (biorxiv_details_url doi) = Inr d"
    and "valid_date d" and "year d < 9999"
  shows "month_folder lookup doi = Inr (spec_bucket d)"
proof (cases "day d = monthrange_days (year d) (month d)")
  case True
  with assms have "roll_date d =
    Inr (if month d = 12 then d\<lparr>year := year d + 1, month := 1, day := 1\<rparr>
         else d\<lparr>month := month d + 1, day := 1\<rparr>)"
    by (simp add: roll_date_last_day)
  with True assms(1) show ?thesis
    by (simp add: month_folder_def spec_bucket_def strftime_B_Y_def month_names_def)
next
  case False
  then have "roll_date d = Inr d" by (rule roll_date_other_day)
  with False assms(1) show ?thesis
    by (simp add: month_folder_def spec_bucket_def strftime_B_Y_def)
qed

theorem month_folder_bucket_witness:
  "month_folder (\<lambda>u. Inr \<lparr>year = 2019, month = 4, day = 30\<rparr>) ''10.1101/798496''
     = Inr ''May_2019''"
proof -
  let ?d = "\<lparr>year = 2019, month = 4, day = 30\<rparr>"
  have v: "valid_date ?d"
    by (simp add: valid_date_def monthrange_days_def mdays_def)
  have s: "spec_bucket ?d = ''May_2019''"
    by code_simp
  show ?thesis
    using month_folder_bucket [of "\<lambda>u. Inr ?d" "''10.1101/798496''" ?d, OF refl v] s
    by simp
qed

lemma get_ok_world:
  "snd (get_ok u w) = w\<lparr>requested := requested w @ [u]\<rparr>"
  by (simp add: get_ok_def requests_get_def split: sum.splits)

lemma get_ok_no_pdf:
  assumes "no_pdf_body w" and "get_ok u w = (Inr r, w')"
  shows "\<not> is_pdf (content r)"
  using assms
  by (auto simp: no_pdf_body_def get_ok_def requests_get_def raise_for_status_def
      split: sum.splits if_splits)

lemma get_ok_keeps:
  assumes "get_ok u w = (x, w')"
  shows "files w' = files w" and "net w' = net w" and "dirs w' = dirs w"
  using get_ok_world [of u w] assms by auto

lemma no_pdf_body_step:
  assumes "no_pdf_body w" and "get_ok u w = (x, w')"
  shows "no_pdf_body w'"
  using assms get_ok_keeps(2) [OF assms(2)] by (simp add: no_pdf_body_def)

lemma get_ok_step:
  assumes "no_pdf_body w"
  shows "\<exists>x w1. get_ok u w = (x, w1) \<and> files w1 = files w \<and> no_pdf_body w1 \<and>
           (\<forall>r. x = Inr r \<longrightarrow> \<not> is_pdf (content r))"
proof -
  obtain x w1 where g: "get_ok u w = (x, w1)" by (cases "get_ok u w")
  show ?thesis
    using get_ok_keeps(1) [OF g] no_pdf_body_step [OF assms g]
      get_ok_no_pdf [OF assms] g by blast
qed

lemma doi_bad:
  assumes "no_pdf_body w"
  shows "fst (fallback_doi doi out w) = Inr (False, None) \<and>
         files (snd (fallback_doi doi out w)) = files w"
proof -
  obtain x w1 where g1: "get_ok (''https://doi.org/'' @ doi) w = (x, w1)"
    and f1: "files w1 = files w" and n1: "no_pdf_body w1"
    using get_ok_step [OF assms] by blast
  show ?thesis
  proof (cases x)
    case (Inl e)
    with g1 f1 show ?thesis by (simp add: fallback_doi_def)
  next
    case (Inr r)
    show ?thesis
    proof (cases "citation_pdf_url r")
      case None
      with Inr g1 f1 show ?thesis by (simp add: fallback_doi_def)
    next
      case (Some pdf_url)
      obtain y w2 where g2: "get_ok pdf_url w1 = (y, w2)"
        and f2: "files w2 = files w1" and b2: "\<And>r. y = Inr r \<Longrightarrow> \<not> is_pdf (content r)"
        using get_ok_step [OF n1, of pdf_url] by blast
      from Some Inr g1 g2 f1 f2 b2 show ?thesis
        by (cases y) (simp_all add: fallback_doi_def)
    qed
  qed
qed

lemma sci_hub_bad:
  assumes "no_pdf_body w"
  shows "fst (fallback_sci_hub doi out w) = Inr (False, None) \<and>
         files (snd (fallback_sci_hub doi out w)) = files w"
proof -
  obtain x w1 where g1: "get_ok (''https://www.sci-hub.ren/'' @ doi @ ''#'') w = (x, w1)"
    and f1: "files w1 = files w" and n1: "no_pdf_body w1"
    using get_ok_step [OF assms] by blast
  show ?thesis
  proof (cases x)
    case (Inl e)
    with g1 f1 show ?thesis by (simp add: fallback_sci_hub_def)
  next
    case (Inr r)
    show ?thesis
    proof (cases "sci_hub_src r")
      case (Inl e)
      with Inr g1 f1 show ?thesis by (simp add: fallback_sci_hub_def)
    next
      case src: (Inr download_url)
      obtain y w2 where g2: "get_ok download_url w1 = (y, w2)"
        and f2: "files w2 = files w1" and b2: "\<And>r. y = Inr r \<Longrightarrow> \<not> is_pdf (content r)"
        using get_ok_step [OF n1, of download_url] by blast
      from src Inr g1 g2 f1 f2 b2 show ?thesis
        by (cases y) (simp_all add: fallback_sci_hub_def)
    qed
  qed
qed

lemma arxiv_try_bad:
  assumes "no_pdf_body w"
  shows "fst (arxiv_try url out w) = False"
    and "files (snd (arxiv_try url out w)) = files w"
    and "no_pdf_body (snd (arxiv_try url out w))"
  using assms
  by (auto simp: arxiv_try_def
      split: prod.splits sum.splits
      dest: get_ok_no_pdf get_ok_keeps(1) no_pdf_body_step)

lemma arxiv_loop_bad:
  assumes "no_pdf_body w"
  shows "fst (arxiv_loop cs doi out w) = Inr (False, None) \<and>
         files (snd (arxiv_loop cs doi out w)) = files w"
  using assms
proof (induction cs arbitrary: w)
  case Nil
  then show ?case by simp
next
  case (Cons c cs)
  let ?u = "''https://arxiv.org/pdf/'' @ c @ ''/'' @ doi"
  obtain b w1 where t: "arxiv_try ?u out w = (b, w1)" by (cases "arxiv_try ?u out w")
  from arxiv_try_bad [OF Cons.prems, of ?u out] t
  have "b = False" "files w1 = files w" "no_pdf_body w1" by simp_all
  with Cons.IH [of w1] t show ?case by (simp add: Let_def)
qed

lemma arxiv_bad:
  assumes "no_pdf_body w"
  shows "(fst (fallback_arxiv doi out w) = Inr (False, None) \<or>
          fallback_arxiv doi out w = (Inl IndexError, w)) \<and>
         files (snd (fallback_arxiv doi out w)) = files w"
proof (cases "sublist ''arxiv'' doi")
  case False
  then show ?thesis by (simp add: fallback_arxiv_def)
next
  case True
  show ?thesis
  proof (cases "\<exists>a d rest. str_split ''arxiv.'' doi = a # d # rest")
    case False
    with True show ?thesis
      by (auto simp: fallback_arxiv_def split: list.splits)
  next
    case ex: True
    then obtain a d rest where sp: "str_split ''arxiv.'' doi = a # d # rest" by blast
    let ?u = "''https://arxiv.org/pdf/'' @ d"
    obtain b w1 where t: "arxiv_try ?u out w = (b, w1)" by (cases "arxiv_try ?u out w")
    from arxiv_try_bad [OF assms, of ?u out] t
    have b: "b = False" "files w1 = files w" by simp_all
    from True sp t b arxiv_loop_bad [OF assms] show ?thesis
      by (simp add: fallback_arxiv_def Let_def del: arxiv_loop.simps)
  qed
qed

lemma wiley_loop_bad:
  assumes "no_pdf_body w"
  shows "fst (wiley_loop n u out w) = False \<and> files (snd (wiley_loop n u out w)) = files w"
  using assms
proof (induction n arbitrary: w)
  case 0
  then show ?case by simp
next
  case (Suc n)
  obtain x w1 where g: "get_ok u w = (x, w1)" by (cases "get_ok u w")
  have w1: "no_pdf_body w1" "files w1 = files w"
    using no_pdf_body_step [OF Suc.prems g] get_ok_keeps(1) [OF g] by simp_all
  show ?case
  proof (cases x)
    case (Inl e)
    with g Suc.IH [OF w1(1)] w1(2) show ?thesis by simp
  next
    case (Inr r)
    with get_ok_no_pdf [OF Suc.prems] g have "\<not> is_pdf (content r)" by simp
    with Inr g Suc.IH [OF w1(1)] w1(2) show ?thesis by simp
  qed
qed

lemma wiley_bad:
  assumes "no_pdf_body w" and "pm ''doi'' = Some (JStr d)"
  shows "fst (fallback_wiley_api pm out keys k w) = Inr False \<and>
         files (snd (fallback_wiley_api pm out keys k w)) = files w"
  using wiley_loop_bad [OF assms(1)] assms(2)
  by (simp add: fallback_wiley_api_def Let_def case_prod_beta)

text \<open>
  C3, as the code has it. When every response the network delivers lacks the \<^verbatim>\<open>%PDF\<close>
  signature (whatever its HTTP status, so in particular when the status reports success),
  each strategy that downloads a PDF over HTTP (\<^verbatim>\<open>fallback_doi\<close>, \<^verbatim>\<open>fallback_sci_hub\<close>,
  \<^verbatim>\<open>fallback_arxiv\<close>, and \<^verbatim>\<open>fallback_wiley_api\<close> for metadata whose \<^verbatim>\<open>doi\<close> is a string)
  reports failure and leaves the files as they were: it writes nothing at the
  destination. The one other outcome is that \<^verbatim>\<open>fallback_arxiv\<close> raises \<^verbatim>\<open>IndexError\<close> at the
  index into the split identifier, before any request, with the world unchanged.
\<close>

theorem bad_signature_is_failure:
  assumes "no_pdf_body w" and "pm ''doi'' = Some (JStr d)"
  shows "fst (fallback_doi doi out w) = Inr (False, None) \<and>
         files (snd (fallback_doi doi out w)) = files w \<and>
         fst (fallback_sci_hub doi out w) = Inr (False, None) \<and>
         files (snd (fallback_sci_hub doi out w)) = files w \<and>
         (fst (fallback_arxiv doi out w) = Inr (False, None) \<or>
          fallback_arxiv doi out w = (Inl IndexError, w)) \<and>
         files (snd (fallback_arxiv doi out w)) = files w \<and>
         fst (fallback_wiley_api pm out keys k w) = Inr False \<and>
         files (snd (fallback_wiley_api pm out keys k w)) = files w"
  using doi_bad [OF assms(1)] sci_hub_bad [OF assms(1)] arxiv_bad [OF assms(1)]
    wiley_bad [of w pm d out keys k] assms by simp

theorem bad_signature_is_failure_witness:
  "fst (fallback_doi ''10.1000/xyz'' (''out/pdf'', ''10.1000_xyz.pdf'') html_world)
     = Inr (False, None) \<and>
   requested (snd (fallback_doi ''10.1000/xyz'' (''out/pdf'', ''10.1000_xyz.pdf'') html_world))
     = [''https://doi.org/10.1000/xyz'', ''https://host/paper.pdf''] \<and>
   files (snd (fallback_doi ''10.1000/xyz'' (''out/pdf'', ''10.1000_xyz.pdf'') html_world))
     = Map.empty \<and>
   fst (fallback_sci_hub ''10.1000/xyz'' (''out/pdf'', ''10.1000_xyz.pdf'') html_world)
     = Inr (False, None) \<and>
   files (snd (fallback_sci_hub ''10.1000/xyz'' (''out/pdf'', ''10.1000_xyz.pdf'') html_world))
     = Map.empty"
proof -
  have n: "no_pdf_body html_world"
    by (simp add: no_pdf_body_def html_world_def html_page_def is_pdf_def)
  have d: "[''doi'' \<mapsto> JStr ''10.1000/xyz''] ''doi'' = Some (JStr ''10.1000/xyz'')"
    by simp
  have r: "requested (snd (fallback_doi ''10.1000/xyz'' (''out/pdf'', ''10.1000_xyz.pdf'')
             html_world)) = [''https://doi.org/10.1000/xyz'', ''https://host/paper.pdf'']"
    by (simp add: fallback_doi_def get_ok_def requests_get_def raise_for_status_def
        html_world_def html_page_def is_pdf_def)
  have f: "files html_world = Map.empty"
    by (simp add: html_world_def)
  show ?thesis
    using bad_signature_is_failure [where w = html_world
        and pm = "[''doi'' \<mapsto> JStr ''10.1000/xyz'']" and d = "''10.1000/xyz''"
        and doi = "''10.1000/xyz''" and out = "(''out/pdf'', ''10.1000_xyz.pdf'')"
        and keys = Map.empty and k = 2] n d r f
    by simp
qed

lemma invoke_facts:
  assumes "st_raised st = None" and "F k d out (st_world st) = (r, w')"
  shows "st_invoked (invoke F k kind d out st) = st_invoked st @ [(k, r)]"
    and "st_world (invoke F k kind d out st) = w'"
    and "active (invoke F k kind d out st) = declined r"
proof -
  show "st_invoked (invoke F k kind d out st) = st_invoked st @ [(k, r)]"
    using assms(2) by (cases r) (auto simp: invoke_def)
  show "st_world (invoke F k kind d out st) = w'"
    using assms(2) by (cases r) (auto simp: invoke_def)
  show "active (invoke F k kind d out st) = declined r"
  proof (cases r)
    case (Inl e)
    with assms(2) show ?thesis by (simp add: invoke_def active_def)
  next
    case (Inr p)
    obtain b u where p: "p = (b, u)" by (cases p)
    with Inr assms show ?thesis by (cases b) (simp_all add: invoke_def active_def)
  qed
qed

lemma guarded_run_inactive:
  "\<not> active st \<Longrightarrow> guarded_run F ks d out st = st"
  by (induction ks) (auto simp: try_next_def active_def)

lemma guarded_run_first_success:
  assumes "active st"
  shows "st_invoked (guarded_run F ks d out st) =
           st_invoked st @ fst (first_success F (map fst ks) d out (st_world st)) \<and>
         st_world (guarded_run F ks d out st) =
           snd (first_success F (map fst ks) d out (st_world st))"
  using assms
proof (induction ks arbitrary: st)
  case Nil
  then show ?case by simp
next
  case (Cons a ks)
  obtain k kind where a: "a = (k, kind)" by (cases a)
  obtain r w' where f: "F k d out (st_world st) = (r, w')"
    by (cases "F k d out (st_world st)")
  from Cons.prems have nr: "st_raised st = None" by (simp add: active_def)
  note facts = invoke_facts [where F = F and k = k and d = d and out = out and st = st
      and r = r and w' = w' and kind = kind, OF nr f]
  show ?case
  proof (cases "declined r")
    case True
    with facts(3) have "active (invoke F k kind d out st)" by simp
    from Cons.IH [OF this] facts(1,2) True f a Cons.prems nr show ?thesis
      by (simp add: case_prod_beta try_next_def active_def)
  next
    case False
    with facts(3) have "\<not> active (invoke F k kind d out st)" by simp
    from guarded_run_inactive [OF this] facts(1,2) False f a Cons.prems nr show ?thesis
      by (simp add: try_next_def active_def)
  qed
qed

lemma chain_guarded_run:
  "chain F d out w =
     guarded_run F
       ((if sublist ''arxiv'' d then [(Arxiv, ''pdf'')] else []) @
        [(Doi, ''pdf''), (Sci_hub, ''pdf''), (Bioc_pmc, ''xml'')]) d out
       \<lparr>st_success = False, st_url = None, st_outputtype = None, st_raised = None,
        st_invoked = [], st_world = w\<rparr>"
  by (cases "sublist ''arxiv'' d") (simp_all add: chain_def Let_def)

lemma chain_first_success:
  "(st_invoked (chain F d out w), st_world (chain F d out w)) =
     first_success F (chain_order d) d out w"
proof -
  let ?st0 = "\<lparr>st_success = False, st_url = None, st_outputtype = None, st_raised = None,
        st_invoked = [], st_world = w\<rparr>"
  have a: "active ?st0" by (simp add: active_def)
  show ?thesis
    using guarded_run_first_success [OF a, of F _ d out]
    by (simp add: chain_guarded_run chain_order_def prod_eq_iff)
qed

lemma first_success_prefix:
  "prefix (map fst (fst (first_success F ks d out w))) ks"
  by (induction ks arbitrary: w) (auto simp: case_prod_beta)

lemma first_success_butlast:
  "x \<in> set (butlast (fst (first_success F ks d out w))) \<Longrightarrow> declined (snd x)"
proof (induction ks arbitrary: w)
  case Nil
  then show ?case by simp
next
  case (Cons k ks)
  then show ?case
    by (auto simp: case_prod_beta split: if_splits)
qed

lemma first_success_stops:
  "map fst (fst (first_success F ks d out w)) = ks \<or>
   \<not> declined (snd (last (fst (first_success F ks d out w))))"
proof (induction ks arbitrary: w)
  case Nil
  then show ?case by simp
next
  case (Cons k ks)
  show ?case
  proof (cases "declined (fst (F k d out w))")
    case False
    then show ?thesis by (simp add: case_prod_beta)
  next
    case True
    with Cons [of "snd (F k d out w)"] show ?thesis
      by (cases ks) (auto simp: case_prod_beta)
  qed
qed

lemma save_pdf_invoked:
  assumes "pm ''doi'' = Some (JStr d)" and "dirs w (fst out) \<noteq> None"
  shows "sr_invoked (save_pdf F pm out w) = st_invoked (chain F d out w) \<and>
         sr_world (save_pdf F pm out w) = st_world (chain F d out w)"
  using assms
  by (auto simp: save_pdf_def Let_def split: option.splits sum.splits)

lemma distinct_chain_order: "distinct (chain_order d)"
  by (simp add: chain_order_def)

text \<open>
  C1. For a request whose identifier is a string and whose output directory exists,
  \<^verbatim>\<open>save_pdf\<close> invokes exactly the strategies that a first-success run over the fixed list
  arXiv (only when the identifier contains \<^verbatim>\<open>arxiv\<close>), DOI, Sci-Hub, PMC invokes, with the
  same effects on the world: the invoked strategies are a prefix of that list, none is
  invoked twice, every strategy before the last invoked one declined, and the chain stops
  early only after a strategy that did not decline.
\<close>

theorem save_pdf_chain:
  assumes "pm ''doi'' = Some (JStr d)" and "dirs w (fst out) \<noteq> None"
  shows "(sr_invoked (save_pdf F pm out w), sr_world (save_pdf F pm out w)) =
           first_success F (chain_order d) d out w \<and>
         prefix (map fst (sr_invoked (save_pdf F pm out w))) (chain_order d) \<and>
         distinct (map fst (sr_invoked (save_pdf F pm out w))) \<and>
         (\<forall>x \<in> set (butlast (sr_invoked (save_pdf F pm out w))). declined (snd x)) \<and>
         (map fst (sr_invoked (save_pdf F pm out w)) = chain_order d \<or>
          \<not> declined (snd (last (sr_invoked (save_pdf F pm out w))))) \<and>
         (Arxiv \<in> fst ` set (sr_invoked (save_pdf F pm out w)) \<longrightarrow> sublist ''arxiv'' d)"
proof -
  let ?t = "sr_invoked (save_pdf F pm out w)"
  have eq: "(?t, sr_world (save_pdf F pm out w)) = first_success F (chain_order d) d out w"
    using save_pdf_invoked [where pm = pm and d = d and w = w and out = out and F = F] assms
      chain_first_success [of F d out w] by simp
  then have t: "?t = fst (first_success F (chain_order d) d out w)"
    by (metis fst_conv)
  have p: "prefix (map fst ?t) (chain_order d)"
    unfolding t by (rule first_success_prefix)
  then obtain zs where zs: "chain_order d = map fst ?t @ zs"
    by (auto simp: prefix_def)
  have dis: "distinct (map fst ?t)"
    using distinct_chain_order [of d] unfolding zs by simp
  have bl: "\<forall>x \<in> set (butlast ?t). declined (snd x)"
    unfolding t using first_success_butlast by blast
  have st: "map fst ?t = chain_order d \<or> \<not> declined (snd (last ?t))"
    unfolding t by (rule first_success_stops)
  have ax: "Arxiv \<in> fst ` set ?t \<longrightarrow> sublist ''arxiv'' d"
  proof
    assume "Arxiv \<in> fst ` set ?t"
    then have "Arxiv \<in> set (map fst ?t)" by simp
    with p have "Arxiv \<in> set (chain_order d)" using set_mono_prefix by blast
    then show "sublist ''arxiv'' d" by (simp add: chain_order_def split: if_splits)
  qed
  from eq p dis bl st ax show ?thesis by blast
qed

lemma xyz_no_arxiv: "\<not> sublist ''arxiv'' ''10.1000/xyz''"
  by code_simp

lemma xyz_chain_order: "chain_order ''10.1000/xyz'' = [Doi, Sci_hub, Bioc_pmc]"
  by (simp add: chain_order_def xyz_no_arxiv)

lemma xyz_with_suffix: "with_suffix (''out/pdf'', ''10.1000_xyz.pdf'') ''.pdf'' = Inr (''out/pdf'', ''10.1000_xyz.pdf'')"
  by (simp add: with_suffix_def path_suffix_def)

lemma xyz_fallback_doi: "fst (fallback_doi ''10.1000/xyz'' (''out/pdf'', ''10.1000_xyz.pdf'') pdf_world)
   = Inr (True, Some ''https://host/paper.pdf'')"
  by (simp add: fallback_doi_def get_ok_def requests_get_def raise_for_status_def
      pdf_world_def pdf_page_def is_pdf_def write_suffixed_def xyz_with_suffix write_file_def)

theorem save_pdf_chain_witness:
  "sr_invoked (save_pdf FALLBACKS [''doi'' \<mapsto> JStr ''10.1000/xyz'']
       (''out/pdf'', ''10.1000_xyz.pdf'') pdf_world)
     = [(Doi, Inr (True, Some ''https://host/paper.pdf''))]"
proof -
  have d: "[''doi'' \<mapsto> JStr ''10.1000/xyz''] ''doi'' = Some (JStr ''10.1000/xyz'')"
    by simp
  have e: "dirs pdf_world (fst (''out/pdf'', ''10.1000_xyz.pdf'')) \<noteq> None"
    by (simp add: pdf_world_def)
  have f: "fst (first_success FALLBACKS (chain_order ''10.1000/xyz'') ''10.1000/xyz''
             (''out/pdf'', ''10.1000_xyz.pdf'') pdf_world)
           = [(Doi, Inr (True, Some ''https://host/paper.pdf''))]"
    using xyz_fallback_doi by (simp add: xyz_chain_order case_prod_beta)
  show ?thesis
    using save_pdf_chain [where pm = "[''doi'' \<mapsto> JStr ''10.1000/xyz'']"
        and d = "''10.1000/xyz''" and w = pdf_world
        and out = "(''out/pdf'', ''10.1000_xyz.pdf'')" and F = FALLBACKS] d e f
    by (metis fst_conv)
qed

text \<open>
  C8, as the code has it. When the Elsevier API answers 401, \<^verbatim>\<open>fallback_elsevier_api\<close>
  declines: it returns \<^verbatim>\<open>False\<close> and writes no file. Nothing but the request log changes,
  so no record of the rejected credential is kept for later invocations.
\<close>

theorem elsevier_unauthorized_declines:
  assumes "pm ''doi'' = Some doi"
    and "net w (length (requested w)) (elsevier_api_url doi keys) = Inr r"
    and "status_code r = 401"
  shows "fallback_elsevier_api pm out keys w =
           (Inr False, w\<lparr>requested := requested w @ [elsevier_api_url doi keys]\<rparr>)"
  using assms by (simp add: fallback_elsevier_api_def requests_get_def)

theorem elsevier_unauthorized_declines_witness:
  "fallback_elsevier_api elsevier_paper (''out/pdf'', ''10.1016_j.x.2020.01.001.pdf'') bad_keys
       unauthorized_world =
     (Inr False,
      unauthorized_world\<lparr>requested :=
        [elsevier_api_url (JStr ''10.1016/j.x.2020.01.001'') bad_keys]\<rparr>)"
proof -
  have d: "elsevier_paper ''doi'' = Some (JStr ''10.1016/j.x.2020.01.001'')"
    by (simp add: elsevier_paper_def)
  have n: "net unauthorized_world (length (requested unauthorized_world))
             (elsevier_api_url (JStr ''10.1016/j.x.2020.01.001'') bad_keys)
           = Inr unauthorized_page"
    by (simp add: unauthorized_world_def)
  have c: "status_code unauthorized_page = 401"
    by (simp add: unauthorized_page_def)
  have r: "requested unauthorized_world = []"
    by (simp add: unauthorized_world_def)
  show ?thesis
    using elsevier_unauthorized_declines [where pm = elsevier_paper
        and doi = "JStr ''10.1016/j.x.2020.01.001''" and w = unauthorized_world
        and keys = bad_keys and r = unauthorized_page
        and out = "(''out/pdf'', ''10.1016_j.x.2020.01.001.pdf'')"] d n c r
    by simp
qed

text \<open>
  The claim as stated fails: after an attempt that received 401, the next attempt of the
  same run sends the request again.
\<close>

theorem elsevier_not_suppressed:
  "fst (fallback_elsevier_api elsevier_paper (''out/pdf'', ''a.pdf'') bad_keys
          unauthorized_world) = Inr False \<and>
   requested (snd (fallback_elsevier_api elsevier_paper (''out/pdf'', ''b.pdf'') bad_keys
      (snd (fallback_elsevier_api elsevier_paper (''out/pdf'', ''a.pdf'') bad_keys
         unauthorized_world)))) =
     [elsevier_api_url (JStr ''10.1016/j.x.2020.01.001'') bad_keys,
      elsevier_api_url (JStr ''10.1016/j.x.2020.01.001'') bad_keys]"
  by (simp add: fallback_elsevier_api_def requests_get_def elsevier_paper_def
      unauthorized_world_def unauthorized_page_def)

lemma dedup_no_hit:
  assumes "\<forall>e \<in> set pre. \<not> hit w parent filename e"
  shows "dedup w parent filename (pre @ rest) = dedup w parent filename rest"
  using assms
proof (induction pre)
  case Nil
  then show ?case by simp
next
  case (Cons e pre)
  obtain n b where e: "e = (n, b)" by (cases e)
  with Cons show ?case by (auto simp: hit_def Let_def)
qed

lemma dedup_at_hit:
  assumes "hit w parent filename (sub, True)"
  shows "dedup w parent filename ((sub, True) # post) =
           Some (if path_exists w (joinpath parent sub, filename @ ''.pdf'')
                 then (''pdf'', (joinpath parent sub, filename @ ''.pdf''))
                 else (''xml'', (joinpath parent sub, filename @ ''.xml'')))"
  using assms by (auto simp: hit_def Let_def)

lemma dedup_first_hit:
  assumes "\<exists>e \<in> set entries. hit w parent filename e"
  shows "\<exists>pre sub post.
           entries = pre @ (sub, True) # post \<and>
           (\<forall>e \<in> set pre. \<not> hit w parent filename e) \<and>
           hit w parent filename (sub, True) \<and>
           dedup w parent filename entries =
             Some (if path_exists w (joinpath parent sub, filename @ ''.pdf'')
                   then (''pdf'', (joinpath parent sub, filename @ ''.pdf''))
                   else (''xml'', (joinpath parent sub, filename @ ''.xml'')))"
proof -
  from split_list_first_prop [OF assms] obtain pre e post where
    s: "entries = pre @ e # post" and h: "hit w parent filename e"
    and n: "\<forall>y \<in> set pre. \<not> hit w parent filename y" by blast
  obtain sub b where e: "e = (sub, b)" by (cases e)
  with h have b: "b = True" by (simp add: hit_def)
  from dedup_no_hit [OF n] dedup_at_hit [of w parent filename sub post] h e b s
  have "dedup w parent filename entries =
             Some (if path_exists w (joinpath parent sub, filename @ ''.pdf'')
                   then (''pdf'', (joinpath parent sub, filename @ ''.pdf''))
                   else (''xml'', (joinpath parent sub, filename @ ''.xml'')))"
    by simp
  with s h n e b show ?thesis by blast
qed

text \<open>
  C4, as the code has it. For a scheduled record (\<^verbatim>\<open>success\<close> false, \<^verbatim>\<open>is_materials\<close> true, an
  identifier that is not null) whose sanitized name (slashes replaced by underscores)
  with \<^verbatim>\<open>.pdf\<close> or \<^verbatim>\<open>.xml\<close> names something that exists (\<^verbatim>\<open>Path.exists\<close>: a file or a
  directory) in a sub-directory of the parent of the output directory, the task adopts the
  first such sub-directory in iteration order, \<^verbatim>\<open>.pdf\<close> before \<^verbatim>\<open>.xml\<close>: it returns the record
  with \<^verbatim>\<open>success\<close> true, that kind and that path; no strategy is invoked and the world
  (request log and files) is unchanged.
\<close>

theorem duplicate_is_adopted:
  assumes "paper ''success'' = Some s" and "\<not> truthy s"
    and "paper ''is_materials'' = Some m" and "truthy m"
    and "paper ''doi'' = Some dv" and "dv \<noteq> JNull"
    and "paper key_to_save = Some (JStr ident)"
    and "key_to_save \<in> {''doi'', ''title'', ''date''}"
    and "dirs w (fst pdf_path) = Some entries"
    and "(name, True) \<in> set entries"
    and "path_exists w (joinpath (fst pdf_path) name, replace_slash ident @ ''.pdf'') \<or>
         path_exists w (joinpath (fst pdf_path) name, replace_slash ident @ ''.xml'')"
  shows "\<exists>pre sub post kind.
           entries = pre @ (sub, True) # post \<and>
           (\<forall>e \<in> set pre. \<not> hit w (fst pdf_path) (replace_slash ident) e) \<and>
           (kind = ''pdf'' \<and>
              path_exists w (joinpath (fst pdf_path) sub, replace_slash ident @ ''.pdf'') \<or>
            kind = ''xml'' \<and>
              \<not> path_exists w (joinpath (fst pdf_path) sub, replace_slash ident @ ''.pdf'') \<and>
              path_exists w (joinpath (fst pdf_path) sub, replace_slash ident @ ''.xml'')) \<and>
           process_single_paper F paper pdf_path key_to_save w =
             \<lparr>tr_returned = True,
              tr_paper = paper(''url'' \<mapsto> JNull, ''success'' \<mapsto> JBool True,
                ''type'' \<mapsto> JStr kind,
                ''path'' \<mapsto> JStr (as_posix (joinpath (fst pdf_path) sub,
                                   replace_slash ident @ ''.'' @ kind))),
              tr_invoked = [], tr_world = w\<rparr>"
proof -
  let ?parent = "fst pdf_path" and ?fn = "replace_slash ident"
  from assms(10,11) have "\<exists>e \<in> set entries. hit w ?parent ?fn e"
    by (force simp: hit_def)
  from dedup_first_hit [OF this] obtain pre sub post where
    s: "entries = pre @ (sub, True) # post"
    and n: "\<forall>e \<in> set pre. \<not> hit w ?parent ?fn e"
    and h: "hit w ?parent ?fn (sub, True)"
    and d: "dedup w ?parent ?fn entries =
             Some (if path_exists w (joinpath ?parent sub, ?fn @ ''.pdf'')
                   then (''pdf'', (joinpath ?parent sub, ?fn @ ''.pdf''))
                   else (''xml'', (joinpath ?parent sub, ?fn @ ''.xml'')))"
    by blast
  define kind where
    "kind = (if path_exists w (joinpath ?parent sub, ?fn @ ''.pdf'') then ''pdf'' else ''xml'')"
  from d have d': "dedup w ?parent ?fn entries = Some (kind, (joinpath ?parent sub, ?fn @ ''.'' @ kind))"
    by (simp add: kind_def)
  from h have k: "kind = ''pdf'' \<and> path_exists w (joinpath ?parent sub, ?fn @ ''.pdf'') \<or>
            kind = ''xml'' \<and> \<not> path_exists w (joinpath ?parent sub, ?fn @ ''.pdf'') \<and>
              path_exists w (joinpath ?parent sub, ?fn @ ''.xml'')"
    by (auto simp: kind_def hit_def)
  from assms(8) have key: "key_to_save \<noteq> ''success''" "key_to_save \<noteq> ''type''"
    "key_to_save \<noteq> ''path''" "key_to_save \<noteq> ''url''" by auto
  from assms(4) have m: "m \<noteq> JBool False" by auto
  have "process_single_paper F paper pdf_path key_to_save w =
             \<lparr>tr_returned = True,
              tr_paper = paper(''url'' \<mapsto> JNull, ''success'' \<mapsto> JBool True,
                ''type'' \<mapsto> JStr kind,
                ''path'' \<mapsto> JStr (as_posix (joinpath ?parent sub, ?fn @ ''.'' @ kind))),
              tr_invoked = [], tr_world = w\<rparr>"
    using assms(1,2,3,5,6,7,9) m key d'
    by (simp add: process_single_paper_def Let_def fun_upd_twist)
  with s n k show ?thesis by blast
qed

theorem duplicate_is_adopted_witness:
  "process_single_paper FALLBACKS pending_paper (''out/pdf'', ''kw1'') ''doi'' duplicate_world =
     \<lparr>tr_returned = True,
      tr_paper = pending_paper(''url'' \<mapsto> JNull, ''success'' \<mapsto> JBool True,
        ''type'' \<mapsto> JStr ''pdf'', ''path'' \<mapsto> JStr ''out/pdf/kw0/10.1000_xyz.pdf''),
      tr_invoked = [], tr_world = duplicate_world\<rparr>"
proof -
  have r: "replace_slash ''10.1000/xyz'' = ''10.1000_xyz''"
    by (simp add: replace_slash_def)
  have j: "joinpath ''out/pdf'' ''kw0'' = ''out/pdf/kw0''"
    "joinpath ''out/pdf'' ''kw1'' = ''out/pdf/kw1''"
    by (simp_all add: joinpath_def)
  have h1: "pending_paper ''success'' = Some (JBool False)" "\<not> truthy (JBool False)"
    "pending_paper ''is_materials'' = Some (JBool True)" "truthy (JBool True)"
    "pending_paper ''doi'' = Some (JStr ''10.1000/xyz'')" "JStr ''10.1000/xyz'' \<noteq> JNull"
    "''doi'' \<in> {''doi'', ''title'', ''date''}"
    by (simp_all add: pending_paper_def)
  have h2: "dirs duplicate_world (fst (''out/pdf'', ''kw1'')) = Some [(''kw0'', True), (''kw1'', True)]"
    "(''kw0'', True) \<in> set [(''kw0'', True), (''kw1'', True)]"
    by (simp_all add: duplicate_world_def)
  have e0: "path_exists duplicate_world (''out/pdf/kw0'', ''10.1000_xyz.pdf'')"
    by (simp add: path_exists_def duplicate_world_def)
  have e1: "\<not> path_exists duplicate_world (''out/pdf/kw1'', ''10.1000_xyz.pdf'')"
    "\<not> path_exists duplicate_world (''out/pdf/kw1'', ''10.1000_xyz.xml'')"
    "\<not> path_exists duplicate_world (''out/pdf/kw0'', ''10.1000_xyz.xml'')"
    by (simp_all add: path_exists_def duplicate_world_def as_posix_def joinpath_def)
  have h3: "path_exists duplicate_world (joinpath (fst (''out/pdf'', ''kw1'')) ''kw0'',
              replace_slash ''10.1000/xyz'' @ ''.pdf'') \<or>
            path_exists duplicate_world (joinpath (fst (''out/pdf'', ''kw1'')) ''kw0'',
              replace_slash ''10.1000/xyz'' @ ''.xml'')"
    using e0 by (simp add: r j)
  from duplicate_is_adopted [where paper = pending_paper and w = duplicate_world
      and pdf_path = "(''out/pdf'', ''kw1'')" and key_to_save = "''doi''" and F = FALLBACKS,
      OF h1(1,2,3,4,5,6,5,7) h2 h3]
  obtain pre sub post kind where
    s: "[(''kw0'', True), (''kw1'', True)] = pre @ (sub, True) # post"
    and k: "kind = ''pdf'' \<and>
              path_exists duplicate_world (joinpath ''out/pdf'' sub, ''10.1000_xyz.pdf'') \<or>
            kind = ''xml'' \<and>
              \<not> path_exists duplicate_world (joinpath ''out/pdf'' sub, ''10.1000_xyz.pdf'') \<and>
              path_exists duplicate_world (joinpath ''out/pdf'' sub, ''10.1000_xyz.xml'')"
    and p: "process_single_paper FALLBACKS pending_paper (''out/pdf'', ''kw1'') ''doi''
              duplicate_world =
             \<lparr>tr_returned = True,
              tr_paper = pending_paper(''url'' \<mapsto> JNull, ''success'' \<mapsto> JBool True,
                ''type'' \<mapsto> JStr kind,
                ''path'' \<mapsto> JStr (as_posix (joinpath ''out/pdf'' sub,
                                   ''10.1000_xyz'' @ ''.'' @ kind))),
              tr_invoked = [], tr_world = duplicate_world\<rparr>"
    by (auto simp: r)
  from s have "(sub, True) \<in> set [(''kw0'', True), (''kw1'', True)]"
    by (metis in_set_conv_decomp)
  then have "sub = ''kw0'' \<or> sub = ''kw1''" by auto
  with k e0 e1 have "kind = ''pdf'' \<and> sub = ''kw0''"
    by (auto simp: j)
  with p show ?thesis by (simp add: j as_posix_def joinpath_def)
qed

text \<open>
  The claim as stated fails when an earlier sub-directory holds a directory of that name:
  the record of an existing \<^verbatim>\<open>.xml\<close> file in \<^verbatim>\<open>kw1\<close> is given the kind \<^verbatim>\<open>pdf\<close> and the path of
  the directory \<^verbatim>\<open>kw0/10.1000_xyz.pdf\<close>, which is no file.
\<close>

theorem directory_is_adopted:
  "process_single_paper FALLBACKS pending_paper (''out/pdf'', ''kw1'') ''doi'' directory_world =
     \<lparr>tr_returned = True,
      tr_paper = pending_paper(''url'' \<mapsto> JNull, ''success'' \<mapsto> JBool True,
        ''type'' \<mapsto> JStr ''pdf'', ''path'' \<mapsto> JStr ''out/pdf/kw0/10.1000_xyz.pdf''),
      tr_invoked = [], tr_world = directory_world\<rparr> \<and>
   files directory_world (''out/pdf/kw0'', ''10.1000_xyz.pdf'') = None \<and>
   files directory_world (''out/pdf/kw1'', ''10.1000_xyz.xml'') = Some ''<xml/>''"
  by (simp add: process_single_paper_def pending_paper_def Let_def
      replace_slash_def directory_world_def as_posix_def joinpath_def path_exists_def
      fun_upd_twist)

lemma keys_dict_set:
  "dict_keys (dict_set md k v) = (if hash_key k \<in> set (dict_keys md) then dict_keys md else dict_keys md @ [hash_key k])"
proof (induction md)
  case Nil
  then show ?case by (simp add: dict_keys_def)
next
  case (Cons e md)
  obtain k' v' where e: "e = (k', v')" by (cases e)
  show ?case
  proof (cases "hash_key k' = hash_key k")
    case True
    with e show ?thesis by (simp add: dict_keys_def)
  next
    case False
    with e Cons show ?thesis by (simp add: dict_keys_def)
  qed
qed

lemma keys_dict_mutate: "dict_keys (dict_mutate md k p) = dict_keys md"
  by (induction md) (auto simp: dict_keys_def dict_mutate_def)

lemma distinct_dict_set: "distinct (dict_keys md) \<Longrightarrow> distinct (dict_keys (dict_set md k v))"
  by (simp add: keys_dict_set)

lemma load_dump_keys:
  assumes "load_dump lines md = Inr md'" and "distinct (dict_keys md)"
  shows "distinct (dict_keys md') \<and> set (dict_keys md) \<subseteq> set (dict_keys md')"
  using assms
proof (induction lines arbitrary: md)
  case Nil
  then show ?case by simp
next
  case (Cons paper lines)
  from Cons.prems(1) obtain d where d: "paper ''doi'' = Some d"
    and l: "load_dump lines (dict_set md d paper) = Inr md'"
    by (auto split: option.splits)
  from Cons.IH [OF l distinct_dict_set [OF Cons.prems(2)]]
  show ?case by (auto simp: keys_dict_set split: if_splits)
qed

lemma completions_keys:
  assumes "completions has_event max_pdf_num evs md = Inr md'" and "distinct (dict_keys md)"
  shows "distinct (dict_keys md') \<and> set (dict_keys md) \<subseteq> set (dict_keys md')"
  using assms
proof (induction evs arbitrary: md)
  case Nil
  then show ?case by simp
next
  case (Cons ev evs)
  show ?case
  proof (cases ev)
    case Cancelled
    with Cons show ?thesis by simp
  next
    case (Completed k returned p listed stop)
    let ?md1 = "dict_mutate md k p"
    have d1: "distinct (dict_keys ?md1)" "dict_keys ?md1 = dict_keys md"
      using Cons.prems(2) by (simp_all add: keys_dict_mutate)
    show ?thesis
    proof (cases returned)
      case False
      with Completed Cons.prems(1) have "completions has_event max_pdf_num evs ?md1 = Inr md'"
        by (simp add: Let_def)
      from Cons.IH [OF this d1(1)] d1(2) show ?thesis by simp
    next
      case True
      with Completed Cons.prems(1) obtain d where d: "p ''doi'' = Some d"
        and c: "completions has_event max_pdf_num evs (dict_set ?md1 d p) = Inr md'"
        by (auto simp: Let_def split: option.splits sum.splits if_splits)
      from Cons.IH [OF c distinct_dict_set [OF d1(1)]] d1(2)
      show ?thesis by (auto simp: keys_dict_set split: if_splits)
    qed
  qed
qed

text \<open>
  C2. Whenever \<^verbatim>\<open>save_pdf_from_dump_new\<close> returns or exits (after all tasks, after the
  quota was exceeded, or on the cancellation signal), the state-store file has been
  rewritten in full: its content is exactly one line per entry of the in-memory mapping,
  whatever it held before; the identifiers of the mapping are distinct and include every
  identifier loaded from the dump.
\<close>

theorem flush_before_leaving:
  assumes "or_ending (save_pdf_from_dump_new dump_path key_to_save max_pdf_num has_event dump
             evs stop_after fault) = Returned \<or>
           or_ending (save_pdf_from_dump_new dump_path key_to_save max_pdf_num has_event dump
             evs stop_after fault) = Exited"
  shows "\<exists>md0 md.
           load_dump (case dump of None \<Rightarrow> [] | Some lines \<Rightarrow> lines) [] = Inr md0 \<and>
           or_metadict (save_pdf_from_dump_new dump_path key_to_save max_pdf_num has_event dump
             evs stop_after fault) = md \<and>
           or_dump (save_pdf_from_dump_new dump_path key_to_save max_pdf_num has_event dump
             evs stop_after fault) = Some (map snd md) \<and>
           distinct (dict_keys md) \<and> set (dict_keys md0) \<subseteq> set (dict_keys md)"
proof -
  let ?R = "save_pdf_from_dump_new dump_path key_to_save max_pdf_num has_event dump
             evs stop_after fault"
  let ?lines = "case dump of None \<Rightarrow> [] | Some lines \<Rightarrow> lines"
  from assms obtain md0 tasks md where l: "load_dump ?lines [] = Inr md0"
    and c: "completions has_event max_pdf_num evs md0 = Inr md"
    and m: "or_metadict ?R = md" and f: "or_dump ?R = Some (map snd md)"
    by (auto simp: save_pdf_from_dump_new_def f_save_metadata_def Let_def
        split: if_splits sum.splits flush_fault.splits)
  from load_dump_keys [OF l] have d0: "distinct (dict_keys md0)" by (simp add: dict_keys_def)
  from completions_keys [OF c d0] l m f show ?thesis by blast
qed

lemma jsonl_suffix: "suffix ''.jsonl'' ''out/doi/kw1.jsonl''"
  by (simp add: suffix_def)

lemma pending_task:
  "process_single_paper FALLBACKS pending_paper (''out/pdf'', ''kw1'') ''doi'' duplicate_world =
     \<lparr>tr_returned = True, tr_paper = adopted_paper, tr_invoked = [],
      tr_world = duplicate_world\<rparr>"
  by (simp add: process_single_paper_def pending_paper_def adopted_paper_def Let_def
      replace_slash_def duplicate_world_def as_posix_def joinpath_def path_exists_def
      fun_upd_twist)

lemma null_task:
  "process_single_paper FALLBACKS null_paper (''out/pdf'', ''kw1'') ''doi'' html_world =
     \<lparr>tr_returned = False,
      tr_paper = null_paper(''success'' \<mapsto> JBool False, ''type'' \<mapsto> JNull,
        ''path'' \<mapsto> JNull, ''url'' \<mapsto> JNull),
      tr_invoked = [], tr_world = html_world\<rparr>"
  by (simp add: process_single_paper_def null_paper_def Let_def)

lemma quota_run_value:
  "or_ending quota_run = Returned \<and> or_tasks quota_run = [pending_paper] \<and>
   or_dump quota_run = Some [adopted_paper]"
  unfolding quota_run_def pending_task task_event_def
  by (simp add: save_pdf_from_dump_new_def f_save_metadata_def jsonl_suffix Let_def dict_mutate_def
      pending_paper_def adopted_paper_def)

theorem flush_before_leaving_witness:
  "or_ending quota_run = Returned \<and> or_tasks quota_run = [pending_paper] \<and>
   or_metadict quota_run = [(JStr ''10.1000/xyz'', adopted_paper)] \<and>
   or_dump quota_run = Some [adopted_paper]"
proof -
  have e: "or_ending quota_run = Returned" using quota_run_value by simp
  then have "or_ending quota_run = Returned \<or> or_ending quota_run = Exited" by simp
  from flush_before_leaving [OF this [unfolded quota_run_def]]
  have "\<exists>md. or_metadict quota_run = md \<and> or_dump quota_run = Some (map snd md) \<and>
          distinct (dict_keys md)"
    unfolding quota_run_def by blast
  moreover have "or_metadict quota_run = [(JStr ''10.1000/xyz'', adopted_paper)]"
    unfolding quota_run_def pending_task task_event_def
    by (simp add: save_pdf_from_dump_new_def f_save_metadata_def jsonl_suffix Let_def dict_mutate_def
        pending_paper_def adopted_paper_def)
  ultimately show ?thesis using quota_run_value by simp
qed

lemma completions_without_event:
  assumes "list_all well_served evs"
  shows "if list_ex (checks_stop max_pdf_num) evs
         then completions False max_pdf_num evs md = Inl AttributeError
         else (\<exists>md'. completions False max_pdf_num evs md = Inr md')"
  using assms
proof (induction evs arbitrary: md)
  case Nil
  then show ?case by simp
next
  case (Cons ev evs)
  from Cons.prems have rest: "list_all well_served evs" by simp
  show ?case
  proof (cases ev)
    case Cancelled
    with Cons.IH [OF rest] show ?thesis by simp
  next
    case (Completed k returned p listed stop)
    show ?thesis
    proof (cases returned)
      case False
      with Completed Cons.IH [OF rest, of "dict_mutate md k p"] show ?thesis
        by (simp add: Let_def)
    next
      case True
      with Completed Cons.prems obtain d n where d: "p ''doi'' = Some d"
        and n: "listed = Inr n" by auto
      show ?thesis
      proof (cases "int n \<le> max_pdf_num")
        case le: True
        with True Completed d n show ?thesis by (simp add: Let_def)
      next
        case gt: False
        with True Completed d n
          Cons.IH [OF rest, of "dict_set (dict_mutate md k p) d p"]
        show ?thesis by (simp add: Let_def)
      qed
    qed
  qed
qed

lemma without_event_never_completes:
  "\<exists>e. or_ending (save_pdf_from_dump_new dump_path key_to_save max_pdf_num False dump evs
            stop_after fault) = Raised e"
  by (simp add: save_pdf_from_dump_new_def Let_def split: sum.splits prod.splits option.splits)

text \<open>
  C10, as the code has it. A call without an event object always ends in an exception.
  When the call passes the argument checks, loads its dump, builds its task list, every
  completed task can be served (a returned record carries \<^verbatim>\<open>doi\<close> and the listing of the
  output directory succeeds) and the flush, when reached, succeeds, the exception is
  \<^verbatim>\<open>AttributeError\<close>: if some task returns a record while the entry count is at or below
  \<^verbatim>\<open>max_pdf_num\<close>, the check after that task raises and the file is left as it was; in
  every other case (no task, tasks returning \<^verbatim>\<open>None\<close>, the quota exceeded at every check)
  the file is flushed first and the check after the loop raises.
\<close>

theorem no_stop_event_raises:
  "(\<exists>e. or_ending (save_pdf_from_dump_new dump_path key_to_save max_pdf_num False dump evs
            stop_after fault) = Raised e) \<and>
   (suffix ''.jsonl'' dump_path \<and> key_to_save \<in> set [''doi'', ''title'', ''date''] \<and>
    load_dump (case dump of None \<Rightarrow> [] | Some lines \<Rightarrow> lines) [] = Inr loaded \<and>
    scheduled (map snd loaded) = Inr tasks \<and> list_all well_served evs \<and>
    (list_ex (checks_stop max_pdf_num) evs \<or> fault = No_fault) \<longrightarrow>
    or_ending (save_pdf_from_dump_new dump_path key_to_save max_pdf_num False dump evs
        stop_after fault) = Raised AttributeError \<and>
    or_dump (save_pdf_from_dump_new dump_path key_to_save max_pdf_num False dump evs
        stop_after fault) =
      (if list_ex (checks_stop max_pdf_num) evs then dump
       else Some (map snd (or_metadict (save_pdf_from_dump_new dump_path key_to_save
              max_pdf_num False dump evs stop_after fault)))))"
proof (rule conjI)
  show "\<exists>e. or_ending (save_pdf_from_dump_new dump_path key_to_save max_pdf_num False dump evs
            stop_after fault) = Raised e"
    by (rule without_event_never_completes)
next
  let ?R = "save_pdf_from_dump_new dump_path key_to_save max_pdf_num False dump evs
        stop_after fault"
  have "or_ending ?R = Raised AttributeError \<and>
    or_dump ?R =
      (if list_ex (checks_stop max_pdf_num) evs then dump
       else Some (map snd (or_metadict ?R)))"
    if a: "suffix ''.jsonl'' dump_path \<and> key_to_save \<in> set [''doi'', ''title'', ''date''] \<and>
    load_dump (case dump of None \<Rightarrow> [] | Some lines \<Rightarrow> lines) [] = Inr loaded \<and>
    scheduled (map snd loaded) = Inr tasks \<and> list_all well_served evs \<and>
    (list_ex (checks_stop max_pdf_num) evs \<or> fault = No_fault)"
  proof (cases "list_ex (checks_stop max_pdf_num) evs")
    case True
    from a have ws: "list_all well_served evs" by simp
    from True completions_without_event [OF ws, of max_pdf_num loaded]
    have "completions False max_pdf_num evs loaded = Inl AttributeError" by simp
    with True a show ?thesis
      by (simp add: save_pdf_from_dump_new_def Let_def)
  next
    case False
    from a have ws: "list_all well_served evs" by simp
    from False completions_without_event [OF ws, of max_pdf_num loaded]
    obtain md' where "completions False max_pdf_num evs loaded = Inr md'" by auto
    moreover from False a have "fault = No_fault" by simp
    ultimately show ?thesis using False a
      by (simp add: save_pdf_from_dump_new_def f_save_metadata_def Let_def)
  qed
  then show "suffix ''.jsonl'' dump_path \<and> key_to_save \<in> set [''doi'', ''title'', ''date''] \<and>
    load_dump (case dump of None \<Rightarrow> [] | Some lines \<Rightarrow> lines) [] = Inr loaded \<and>
    scheduled (map snd loaded) = Inr tasks \<and> list_all well_served evs \<and>
    (list_ex (checks_stop max_pdf_num) evs \<or> fault = No_fault) \<longrightarrow>
    or_ending ?R = Raised AttributeError \<and>
    or_dump ?R =
      (if list_ex (checks_stop max_pdf_num) evs then dump
       else Some (map snd (or_metadict ?R)))"
    by blast
qed

theorem no_stop_event_raises_witness:
  "or_tasks abort_run = [pending_paper] \<and> or_ending abort_run = Raised AttributeError \<and>
   or_dump abort_run = Some [pending_paper]"
proof -
  have l: "load_dump (case Some [pending_paper] of None \<Rightarrow> [] | Some lines \<Rightarrow> lines) []
             = Inr [(JStr ''10.1000/xyz'', pending_paper)]"
    by (simp add: pending_paper_def)
  have s: "scheduled (map snd [(JStr ''10.1000/xyz'', pending_paper)]) = Inr [pending_paper]"
    by (simp add: pending_paper_def)
  have k: "''doi'' \<in> set [''doi'', ''title'', ''date'']" by simp
  let ?evs = "[Completed (JStr ''10.1000/xyz'') True adopted_paper (Inr 1) False]"
  have w: "list_all well_served ?evs"
    by (simp add: adopted_paper_def pending_paper_def)
  have c: "list_ex (checks_stop 500) ?evs" by simp
  have t: "or_tasks abort_run = [pending_paper]"
    unfolding abort_run_def pending_task task_event_def
    by (simp add: save_pdf_from_dump_new_def f_save_metadata_def jsonl_suffix Let_def
        dict_mutate_def pending_paper_def adopted_paper_def)
  from no_stop_event_raises [where dump_path = "''out/doi/kw1.jsonl''" and key_to_save = "''doi''"
      and dump = "Some [pending_paper]" and loaded = "[(JStr ''10.1000/xyz'', pending_paper)]"
      and tasks = "[pending_paper]" and evs = ?evs and max_pdf_num = 500
      and stop_after = False and fault = No_fault]
    jsonl_suffix k l s w c t
  show ?thesis
    unfolding abort_run_def pending_task task_event_def by simp
qed

text \<open>
  The claim as stated fails for a scheduled task that returns \<^verbatim>\<open>None\<close>: the record with a
  null identifier is scheduled, its task completes with the entry count at 0, the check
  is skipped by \<^verbatim>\<open>continue\<close>, and the file is flushed before \<^verbatim>\<open>AttributeError\<close> is raised.
\<close>

theorem null_identifier_flushes_first:
  "or_tasks null_run = [null_paper] \<and> or_ending null_run = Raised AttributeError \<and>
   or_dump null_run =
     Some [null_paper(''success'' \<mapsto> JBool False, ''type'' \<mapsto> JNull, ''path'' \<mapsto> JNull,
             ''url'' \<mapsto> JNull)]"
  unfolding null_run_def null_task task_event_def
  by (simp add: save_pdf_from_dump_new_def f_save_metadata_def jsonl_suffix Let_def dict_mutate_def null_paper_def)

lemma plain_folder: "month_folder (details plain_archive) ''10.1101/798496'' = Inr ''October_2019''"
  by code_simp

lemma plain_token: "lower (last (str_split ''/'' ''10.1101/798496'')) = ''798496''"
  by code_simp

lemma plain_lower: "lower ''798496'' = ''798496''"
  by code_simp

lemma plain_probe:
  "find_meca_for_doi plain_archive ''Current_Content/October_2019/a.meca'' ''798496''
     = (Inr True, [First_4096, Last_4096])"
  by code_simp

lemma plain_keys:
  "list_meca_keys plain_archive ''Current_Content/October_2019/''
     = Inr [''Current_Content/October_2019/a.meca'']"
  by code_simp

lemma plain_target:
  "extract_target ''out/pdf'' ''content/798496.pdf'' = (''out/pdf/content'', ''798496.pdf'')"
  "rename_source ''out/pdf'' ''content/798496.pdf'' = (''out/pdf/content'', ''798496.pdf'')"
  by code_simp+

lemma plain_dest:
  "with_suffix (''out/pdf'', ''10.1101_798496.pdf'') ''.pdf'' = Inr (''out/pdf'', ''10.1101_798496.pdf'')"
  by code_simp

lemma plain_find: "find is_pdf_name (map fst plain_members) = Some ''content/798496.pdf''"
  by code_simp

lemma plain_getinfo:
  "getinfo plain_members ''content/798496.pdf'' = Some (''<html>not a pdf</html>'', None)"
  by code_simp

text \<open>
  The claim as stated fails for \<^verbatim>\<open>fallback_s3\<close>, which has no signature test: the member
  of the container whose name ends in \<^verbatim>\<open>.pdf\<close> is moved to the destination and the call
  returns \<^verbatim>\<open>True\<close>, although its bytes do not begin with \<^verbatim>\<open>%PDF\<close>.
\<close>

theorem s3_accepts_any_body:
  "s3_returned (fallback_s3 plain_archive ''10.1101/798496''
      (''out/pdf'', ''10.1101_798496.pdf'') [''Current_Content/October_2019/a.meca''] Fs_ok
      html_world) = Inr True \<and>
   files (s3_world (fallback_s3 plain_archive ''10.1101/798496''
      (''out/pdf'', ''10.1101_798496.pdf'') [''Current_Content/October_2019/a.meca''] Fs_ok
      html_world)) (''out/pdf'', ''10.1101_798496.pdf'') = Some ''<html>not a pdf</html>'' \<and>
   \<not> is_pdf ''<html>not a pdf</html>''"
proof -
  have u: "unzip plain_archive ''PK'' = Inr plain_members"
    "get_object plain_archive ''Current_Content/October_2019/a.meca'' Whole = Inr ''PK''"
    by (simp_all add: plain_archive_def)
  show ?thesis
    by (simp add: fallback_s3_def plain_folder plain_keys plain_token plain_lower plain_probe u
        plain_find extract_pdf_def plain_getinfo plain_target plain_dest Let_def is_pdf_def)
qed

lemma str_split_nonempty: "str_split sep s \<noteq> []"
  by (induction sep s rule: str_split.induct) (auto simp: Let_def)







lemma split_at_least_two:
  assumes "sep \<noteq> []" and "sublist sep s"
  shows "2 \<le> length (str_split sep s)"
  using assms
proof (induction sep s rule: str_split.induct)
  case (1 sep)
  then show ?case by simp
next
  case (2 sep c cs)
  show ?case
  proof (cases "prefix sep (c # cs)")
    case True
    with 2(3) str_split_nonempty [of sep "drop (length sep) (c # cs)"] show ?thesis
      by (cases "str_split sep (drop (length sep) (c # cs))") simp_all
  next
    case False
    with 2(4) have "sublist sep cs" by (simp add: sublist_Cons_right)
    with 2(2) [OF _ 2(3)] False have "2 \<le> length (str_split sep cs)" by simp
    with False str_split_nonempty [of sep cs] show ?thesis
      by (cases "str_split sep cs") (simp_all add: Let_def)
  qed
qed

lemma doi_total:
  "fst (fallback_doi doi out w) = Inr (False, None) \<or>
   (\<exists>u. fst (fallback_doi doi out w) = Inr (True, Some u))"
  by (simp add: fallback_doi_def Let_def split: prod.splits sum.splits option.splits)

lemma sci_hub_total:
  "fst (fallback_sci_hub doi out w) = Inr (False, None) \<or>
   (\<exists>u. fst (fallback_sci_hub doi out w) = Inr (True, Some u))"
  by (simp add: fallback_sci_hub_def Let_def split: prod.splits sum.splits option.splits)

lemma bioc_pmc_total:
  "fst (fallback_bioc_pmc doi out w) = Inr (False, None) \<or>
   (\<exists>u. fst (fallback_bioc_pmc doi out w) = Inr (True, Some u))"
  by (simp add: fallback_bioc_pmc_def Let_def
      split: prod.splits sum.splits option.splits list.splits)

lemma arxiv_loop_total:
  "fst (arxiv_loop cs d out w) = Inr (False, None) \<or>
   (\<exists>u. fst (arxiv_loop cs d out w) = Inr (True, Some u))"
proof (induction cs arbitrary: w)
  case Nil
  then show ?case by simp
next
  case (Cons c cs)
  obtain b w1 where t: "arxiv_try (''https://arxiv.org/pdf/'' @ c @ ''/'' @ d) out w = (b, w1)"
    by (cases "arxiv_try (''https://arxiv.org/pdf/'' @ c @ ''/'' @ d) out w")
  with Cons [of w1] show ?case by (cases b) (simp_all add: Let_def)
qed

lemma arxiv_total:
  assumes "sublist ''arxiv'' doi \<longrightarrow> sublist ''arxiv.'' doi"
  shows "fst (fallback_arxiv doi out w) = Inr (False, None) \<or>
   (\<exists>u. fst (fallback_arxiv doi out w) = Inr (True, Some u))"
proof (cases "sublist ''arxiv'' doi")
  case False
  then show ?thesis by (simp add: fallback_arxiv_def)
next
  case True
  with assms have "sublist ''arxiv.'' doi" by simp
  from split_at_least_two [OF _ this] have "2 \<le> length (str_split ''arxiv.'' doi)" by simp
  then obtain a d rest where sp: "str_split ''arxiv.'' doi = a # d # rest"
    by (cases "str_split ''arxiv.'' doi"; cases "tl (str_split ''arxiv.'' doi)") auto
  obtain b w1 where t: "arxiv_try (''https://arxiv.org/pdf/'' @ d) out w = (b, w1)"
    by (cases "arxiv_try (''https://arxiv.org/pdf/'' @ d) out w")
  from True sp t arxiv_loop_total [of _ d out w] show ?thesis
    by (cases b) (simp_all add: fallback_arxiv_def Let_def del: arxiv_loop.simps)
qed

text \<open>
  The four strategies of the chain of \<^verbatim>\<open>save_pdf\<close> catch what they can: three of them
  return a pair for every identifier, destination and world, and \<^verbatim>\<open>fallback_arxiv\<close> does
  so for every identifier that contains \<^verbatim>\<open>arxiv.\<close> or does not contain \<^verbatim>\<open>arxiv\<close>.
\<close>

lemma chain_strategies_never_raise:
  "(fst (fallback_doi doi out w) = Inr (False, None) \<or>
    (\<exists>u. fst (fallback_doi doi out w) = Inr (True, Some u))) \<and>
   (fst (fallback_sci_hub doi out w) = Inr (False, None) \<or>
    (\<exists>u. fst (fallback_sci_hub doi out w) = Inr (True, Some u))) \<and>
   (fst (fallback_bioc_pmc doi out w) = Inr (False, None) \<or>
    (\<exists>u. fst (fallback_bioc_pmc doi out w) = Inr (True, Some u))) \<and>
   ((sublist ''arxiv'' doi \<longrightarrow> sublist ''arxiv.'' doi) \<longrightarrow>
    fst (fallback_arxiv doi out w) = Inr (False, None) \<or>
    (\<exists>u. fst (fallback_arxiv doi out w) = Inr (True, Some u)))"
  using doi_total sci_hub_total bioc_pmc_total arxiv_total by blast

text \<open>
  C7. The claim does not hold of the code: \<^verbatim>\<open>fallback_s3\<close> has no handler around
  \<^verbatim>\<open>month_folder\<close>, so the exception of a failed date lookup leaves it; and the index
  \<^verbatim>\<open>[1]\<close> of \<^verbatim>\<open>fallback_arxiv\<close> raises \<^verbatim>\<open>IndexError\<close> for an identifier that contains
  \<^verbatim>\<open>arxiv\<close> but not \<^verbatim>\<open>arxiv.\<close>.
\<close>

theorem strategies_let_exceptions_out:
  "s3_returned (fallback_s3 unreachable_archive ''10.1101/798496''
      (''out/pdf'', ''10.1101_798496.pdf'') [] Fs_ok html_world) = Inl RequestException \<and>
   s3_world (fallback_s3 unreachable_archive ''10.1101/798496''
      (''out/pdf'', ''10.1101_798496.pdf'') [] Fs_ok html_world) = html_world \<and>
   fst (fallback_arxiv ''10.1000/arxiv123'' (''out/pdf'', ''10.1000_arxiv123.pdf'') html_world)
     = Inl IndexError"
proof -
  have a: "sublist ''arxiv'' ''10.1000/arxiv123''" by code_simp
  have b: "str_split ''arxiv.'' ''10.1000/arxiv123'' = [''10.1000/arxiv123'']" by code_simp
  show ?thesis
    by (simp add: fallback_s3_def month_folder_def unreachable_archive_def
        fallback_arxiv_def a b)
qed







end
